theory Spec2Isabelle
  imports Main "HOL-Library.AList" "HOL-Library.Sublist"
begin

section \<open>Data model\<close>

text \<open>
  A path is the list of its components below a root: local paths below the configured
  local directory, remote paths below the root of the server. The source builds
  \<^verbatim>\<open>localPath + path.sep + filename\<close> and \<^verbatim>\<open>remotePath + '/' + filename\<close>; the model
  appends the component.
\<close>

type_synonym path = "string list"

text \<open>
  The local directory tree, as \<^verbatim>\<open>fs.readdirSync\<close> and \<^verbatim>\<open>fs.statSync(..).isDirectory()\<close>
  show it. It does not change during a run, so a local path is carried together with the
  node it denotes (\<open>None\<close> when nothing is there).
\<close>

datatype lnode = LocalFile | LocalDir "(string \<times> lnode) list"

text \<open>\<^verbatim>\<open>stats.local\<close> is \<^verbatim>\<open>'file'\<close>, \<^verbatim>\<open>'dir'\<close>, \<^verbatim>\<open>'ignored'\<close> or \<^verbatim>\<open>null\<close>;
  \<^verbatim>\<open>stats.remote\<close> is \<^verbatim>\<open>'file'\<close>, \<^verbatim>\<open>'dir'\<close> or \<^verbatim>\<open>null\<close>.\<close>

datatype local_status = LFile | LDir | LIgnored | LAbsent

datatype remote_status = RFile | RDir | RAbsent

record stats =
  local :: local_status
  remote :: remote_status

text \<open>The task of \<^verbatim>\<open>util.getTask\<close>: \<^verbatim>\<open>task.method\<close> names the method that
  \<^verbatim>\<open>this[task.method]\<close> calls, \<^verbatim>\<open>task.removeRemote\<close> is the flag. They are
  \<open>taskMethod\<close> and \<open>removeRemoteFirst\<close> here.\<close>

datatype task_method = Upload | Sync | Noop

record task =
  taskMethod :: task_method
  removeRemoteFirst :: bool

text \<open>Errors: an error of the server with its \<^verbatim>\<open>err.code\<close>, and the exceptions of the
  local file system calls.\<close>

datatype error = SftpError nat | ENOENT | ENOTDIR

text \<open>
  What a call that returns a promise comes to: the promise resolves, rejects, or never
  settles (\<open>Pending\<close>: a promise whose \<^verbatim>\<open>resolve\<close> and \<^verbatim>\<open>reject\<close> are never
  called); \<open>Threw\<close> is an exception thrown by the call itself, before it returns a
  promise.
\<close>

datatype 'a outcome = Resolved 'a | Rejected error | Pending | Threw error

text \<open>The trace of a run: the methods called, the decision taken for each entry, and the
  requests sent to the server.\<close>

datatype event =
    CallSync path path
  | CallUpload path path
  | CallRemoveRemote path
  | CallNoop
  | Decide path stats task
  | ClientSftp
  | SftpReaddir path
  | SftpStat path
  | SftpMkdir path
  | SftpFastPut path path
  | SftpUnlink path
  | SftpRmdir path

text \<open>
  The server behind the session, over any state \<open>'s\<close>: what \<^verbatim>\<open>client.sftp\<close> and the
  six requests of the session answer. \<open>readdir\<close> answers the file names, \<open>stat\<close> answers
  \<^verbatim>\<open>stat.isDirectory()\<close>.
\<close>

record 's sftp_server =
  client_sftp :: "error + nat"
  readdir :: "path \<Rightarrow> 's \<Rightarrow> error + string list"
  stat :: "path \<Rightarrow> 's \<Rightarrow> error + bool"
  mkdir :: "path \<Rightarrow> 's \<Rightarrow> error option \<times> 's"
  fastPut :: "path \<Rightarrow> path \<Rightarrow> 's \<Rightarrow> error option \<times> 's"
  unlink :: "path \<Rightarrow> 's \<Rightarrow> error option \<times> 's"
  rmdir :: "path \<Rightarrow> 's \<Rightarrow> error option \<times> 's"

text \<open>The deployer: \<^verbatim>\<open>this.sftp\<close> (the cached session) and the state of the server.\<close>

record 's deployer =
  sftp :: "nat option"
  server :: 's

text \<open>
  \<^verbatim>\<open>this.options\<close> and the modules the source requires: the glob matcher \<^verbatim>\<open>minimatch\<close>
  and \<^verbatim>\<open>util.getTask\<close> are parameters.
\<close>

record options =
  dryRun :: bool
  exclude :: "string list"
  minimatch :: "string \<Rightarrow> string \<Rightarrow> bool"
  getTask :: "stats \<Rightarrow> task"

section \<open>The classifier\<close>

text \<open>
  Modelled from the spec: \<^verbatim>\<open>util.getTask\<close>, whose file \<^verbatim>\<open>util.js\<close> is missing. The
  table of section 4.3: an ignored entry gives \<open>Noop\<close> with no removal, an entry absent
  locally gives \<open>Noop\<close> with removal, a file gives \<open>Upload\<close> and a directory \<open>Sync\<close>, with
  removal when the remote entry is of the other type.
\<close>

definition spec_getTask :: "stats \<Rightarrow> task" where
  "spec_getTask st =
     (case local st of
        LIgnored \<Rightarrow> \<lparr>taskMethod = Noop, removeRemoteFirst = False\<rparr>
      | LAbsent \<Rightarrow> \<lparr>taskMethod = Noop, removeRemoteFirst = True\<rparr>
      | LFile \<Rightarrow> \<lparr>taskMethod = Upload, removeRemoteFirst = (remote st = RDir)\<rparr>
      | LDir \<Rightarrow> \<lparr>taskMethod = Sync, removeRemoteFirst = (remote st = RFile)\<rparr>)"

section \<open>The exclusion matcher\<close>

text \<open>
  Modelled from the spec: \<^verbatim>\<open>util.normalizedRelativePath\<close>, whose file is missing: the
  slash-separated path relative to the local root.
\<close>

fun normalizedRelativePath :: "path \<Rightarrow> string" where
  "normalizedRelativePath [] = []"
| "normalizedRelativePath [x] = x"
| "normalizedRelativePath (x # y # ys) = x @ ''/'' @ normalizedRelativePath (y # ys)"

definition isIgnored :: "options \<Rightarrow> path \<Rightarrow> bool \<Rightarrow> bool" where
  "isIgnored opts localPath isDir =
     (let pathForMatch = normalizedRelativePath localPath @ (if isDir then ''/'' else [])
      in list_ex (\<lambda>pattern. minimatch opts pathForMatch pattern) (exclude opts))"

section \<open>The session\<close>

definition getSftp :: "'s sftp_server \<Rightarrow> 's deployer \<Rightarrow> nat outcome \<times> 's deployer \<times> event list" where
  "getSftp srv d =
     (case sftp d of
        Some h \<Rightarrow> (Resolved h, d, [])
      | None \<Rightarrow>
          (case client_sftp srv of
             Inl err \<Rightarrow> (Rejected err, d, [ClientSftp])
           | Inr h \<Rightarrow> (Resolved h, d\<lparr>sftp := Some h\<rparr>, [ClientSftp])))"

text \<open>
  \<^verbatim>\<open>Promise.all\<close> of two: it rejects when one rejects, resolves when both resolve, and
  otherwise never settles. \<open>Threw\<close> is not a promise: the loop that collects the promises
  ends there.
\<close>

fun promiseAll2 :: "unit outcome \<Rightarrow> unit outcome \<Rightarrow> unit outcome" where
  "promiseAll2 (Threw e) _ = Threw e"
| "promiseAll2 _ (Threw e) = Threw e"
| "promiseAll2 (Rejected e) _ = Rejected e"
| "promiseAll2 _ (Rejected e) = Rejected e"
| "promiseAll2 Pending _ = Pending"
| "promiseAll2 _ Pending = Pending"
| "promiseAll2 (Resolved _) (Resolved _) = Resolved ()"

text \<open>A call inside a \<^verbatim>\<open>then\<close> callback: what it throws rejects the promise.\<close>

fun inThen :: "unit outcome \<Rightarrow> unit outcome" where
  "inThen (Threw e) = Rejected e"
| "inThen r = r"

text \<open>\<^verbatim>\<open>Promise.all(children).then(...)\<close> with no handler for a rejection: the
  continuation runs when all resolved, and nothing settles the promise otherwise.\<close>

fun allResolved :: "unit outcome \<Rightarrow> bool" where
  "allResolved (Resolved _) = True"
| "allResolved _ = False"

section \<open>The scanner\<close>

fun isDirectory :: "lnode \<Rightarrow> bool" where
  "isDirectory LocalFile = False"
| "isDirectory (LocalDir _) = True"

text \<open>The first loop of \<^verbatim>\<open>buildProject\<close>: one entry for each local name, in the order
  of the listing; \<^verbatim>\<open>project.set\<close> is \<open>AList.update\<close>.\<close>

definition localStatus :: "options \<Rightarrow> path \<Rightarrow> lnode \<Rightarrow> local_status" where
  "localStatus opts fullPath node =
     (let isDir = isDirectory node;
          ignored = isIgnored opts fullPath isDir
      in if ignored then LIgnored else if isDir then LDir else LFile)"

fun localProject :: "options \<Rightarrow> path \<Rightarrow> (string \<times> lnode) list \<Rightarrow> (string \<times> stats) list
    \<Rightarrow> (string \<times> stats) list" where
  "localProject opts localPath [] project = project"
| "localProject opts localPath ((filename, node) # rest) project =
     localProject opts localPath rest
       (AList.update filename
          \<lparr>local = localStatus opts (localPath @ [filename]) node, remote = RAbsent\<rparr> project)"

text \<open>The second loop: a \<^verbatim>\<open>stat\<close> for each remote name. All requests are sent; an
  answer that is an error rejects its promise and leaves the map as it is, the first such
  error is the one \<^verbatim>\<open>Promise.all\<close> rejects with.\<close>

definition setStat :: "string \<Rightarrow> bool \<Rightarrow> (string \<times> stats) list \<Rightarrow> (string \<times> stats) list" where
  "setStat filename isDir project =
     (let type = (if isDir then RDir else RFile)
      in case map_of project filename of
           Some st \<Rightarrow> AList.update filename (st\<lparr>remote := type\<rparr>) project
         | None \<Rightarrow> AList.update filename \<lparr>local = LAbsent, remote = type\<rparr> project)"

fun remoteStats :: "'s sftp_server \<Rightarrow> path \<Rightarrow> string list \<Rightarrow> 's \<Rightarrow> (string \<times> stats) list
    \<Rightarrow> error option \<times> (string \<times> stats) list" where
  "remoteStats srv remotePath [] s project = (None, project)"
| "remoteStats srv remotePath (filename # rest) s project =
     (case stat srv (remotePath @ [filename]) s of
        Inl err \<Rightarrow>
          (case remoteStats srv remotePath rest s project of
             (_, project') \<Rightarrow> (Some err, project'))
      | Inr isDir \<Rightarrow> remoteStats srv remotePath rest s (setStat filename isDir project))"

definition buildProject :: "options \<Rightarrow> 's sftp_server \<Rightarrow> path \<Rightarrow> lnode option \<Rightarrow> path \<Rightarrow> 's deployer
    \<Rightarrow> (string \<times> stats) list outcome \<times> 's deployer \<times> event list" where
  "buildProject opts srv localPath node remotePath d =
     (case node of
        None \<Rightarrow> (Threw ENOENT, d, [])
      | Some LocalFile \<Rightarrow> (Threw ENOTDIR, d, [])
      | Some (LocalDir localList) \<Rightarrow>
          (let project = localProject opts localPath localList []
           in case getSftp srv d of
                (Resolved h, d1, t1) \<Rightarrow>
                  (case readdir srv remotePath (server d1) of
                     Inl err \<Rightarrow>
                       (if err = SftpError 2 then (Resolved project, d1, t1 @ [SftpReaddir remotePath])
                        else (Rejected err, d1, t1 @ [SftpReaddir remotePath]))
                   | Inr remoteList \<Rightarrow>
                       (let t2 = t1 @ [SftpReaddir remotePath]
                                 @ map (\<lambda>filename. SftpStat (remotePath @ [filename])) remoteList
                        in case remoteStats srv remotePath remoteList (server d1) project of
                             (Some err, _) \<Rightarrow> (Rejected err, d1, t2)
                           | (None, project') \<Rightarrow> (Resolved project', d1, t2)))
              | (_, d1, t1) \<Rightarrow> (Pending, d1, t1)))"


section \<open>Upload\<close>

text \<open>
  \<^verbatim>\<open>upload\<close>: a file is sent with \<^verbatim>\<open>fastPut\<close>; a directory is created with \<^verbatim>\<open>mkdir\<close>
  and each child that is not ignored is uploaded. The promises of the children are
  awaited with no handler for a rejection. Sibling promises run concurrently in the
  source; the model runs them one after the other, in the order of the listing.
\<close>

fun upload :: "options \<Rightarrow> 's sftp_server \<Rightarrow> path \<Rightarrow> lnode option \<Rightarrow> path \<Rightarrow> 's deployer
    \<Rightarrow> unit outcome \<times> 's deployer \<times> event list"
and uploadChildren :: "options \<Rightarrow> 's sftp_server \<Rightarrow> path \<Rightarrow> (string \<times> lnode) list \<Rightarrow> path \<Rightarrow> 's deployer
    \<Rightarrow> unit outcome \<times> 's deployer \<times> event list" where
  "upload opts srv localPath None remotePath d = (Threw ENOENT, d, [CallUpload localPath remotePath])"
| "upload opts srv localPath (Some LocalFile) remotePath d =
     (case getSftp srv d of
        (Resolved h, d1, t1) \<Rightarrow>
          (case fastPut srv localPath remotePath (server d1) of
             (Some err, s2) \<Rightarrow>
               (Rejected err, d1\<lparr>server := s2\<rparr>,
                CallUpload localPath remotePath # t1 @ [SftpFastPut localPath remotePath])
           | (None, s2) \<Rightarrow>
               (Resolved (), d1\<lparr>server := s2\<rparr>,
                CallUpload localPath remotePath # t1 @ [SftpFastPut localPath remotePath]))
      | (_, d1, t1) \<Rightarrow> (Pending, d1, CallUpload localPath remotePath # t1))"
| "upload opts srv localPath (Some (LocalDir localList)) remotePath d =
     (case getSftp srv d of
        (Resolved h, d1, t1) \<Rightarrow>
          (case mkdir srv remotePath (server d1) of
             (Some err, s2) \<Rightarrow>
               (Rejected err, d1\<lparr>server := s2\<rparr>,
                CallUpload localPath remotePath # t1 @ [SftpMkdir remotePath])
           | (None, s2) \<Rightarrow>
               (case uploadChildren opts srv localPath localList remotePath (d1\<lparr>server := s2\<rparr>) of
                  (r, d3, t3) \<Rightarrow>
                    (if allResolved r then Resolved () else Pending, d3,
                     CallUpload localPath remotePath # t1 @ [SftpMkdir remotePath] @ t3)))
      | (_, d1, t1) \<Rightarrow> (Pending, d1, CallUpload localPath remotePath # t1))"
| "uploadChildren opts srv localPath [] remotePath d = (Resolved (), d, [])"
| "uploadChildren opts srv localPath ((filename, node) # rest) remotePath d =
     (if isIgnored opts (localPath @ [filename]) (isDirectory node)
      then uploadChildren opts srv localPath rest remotePath d
      else
        (case upload opts srv (localPath @ [filename]) (Some node) (remotePath @ [filename]) d of
           (r1, d1, t1) \<Rightarrow>
             (case uploadChildren opts srv localPath rest remotePath d1 of
                (r2, d2, t2) \<Rightarrow> (promiseAll2 r1 r2, d2, t1 @ t2))))"

section \<open>Removal\<close>

text \<open>
  \<^verbatim>\<open>removeRemote\<close>: \<^verbatim>\<open>stat\<close>, then \<^verbatim>\<open>unlink\<close> for a file; for a directory \<^verbatim>\<open>readdir\<close>,
  the removal of each name listed, and \<^verbatim>\<open>rmdir\<close> once all of them resolved. The
  recursion follows what the server answers, so the model takes fuel, the depth it may
  reach; \<open>None\<close> is the model out of fuel.
\<close>

fun removeRemote :: "nat \<Rightarrow> 's sftp_server \<Rightarrow> path \<Rightarrow> 's deployer
    \<Rightarrow> (unit outcome \<times> 's deployer \<times> event list) option"
and removeChildren :: "nat \<Rightarrow> 's sftp_server \<Rightarrow> path \<Rightarrow> string list \<Rightarrow> 's deployer
    \<Rightarrow> (unit outcome \<times> 's deployer \<times> event list) option" where
  "removeRemote 0 srv remotePath d = None"
| "removeRemote (Suc fuel) srv remotePath d =
     (case getSftp srv d of
        (Resolved h, d1, t1) \<Rightarrow>
          (case stat srv remotePath (server d1) of
             Inl err \<Rightarrow> Some (Rejected err, d1, CallRemoveRemote remotePath # t1 @ [SftpStat remotePath])
           | Inr True \<Rightarrow>
               (case readdir srv remotePath (server d1) of
                  Inl err \<Rightarrow>
                    Some (Rejected err, d1,
                      CallRemoveRemote remotePath # t1 @ [SftpStat remotePath, SftpReaddir remotePath])
                | Inr list \<Rightarrow>
                    (case removeChildren fuel srv remotePath list d1 of
                       None \<Rightarrow> None
                     | Some (r, d2, t2) \<Rightarrow>
                         (if allResolved r
                          then
                            (case rmdir srv remotePath (server d2) of
                               (Some err, s3) \<Rightarrow>
                                 Some (Rejected err, d2\<lparr>server := s3\<rparr>,
                                   CallRemoveRemote remotePath # t1
                                   @ [SftpStat remotePath, SftpReaddir remotePath] @ t2
                                   @ [SftpRmdir remotePath])
                             | (None, s3) \<Rightarrow>
                                 Some (Resolved (), d2\<lparr>server := s3\<rparr>,
                                   CallRemoveRemote remotePath # t1
                                   @ [SftpStat remotePath, SftpReaddir remotePath] @ t2
                                   @ [SftpRmdir remotePath]))
                          else
                            Some (Pending, d2,
                              CallRemoveRemote remotePath # t1
                              @ [SftpStat remotePath, SftpReaddir remotePath] @ t2))))
           | Inr False \<Rightarrow>
               (case unlink srv remotePath (server d1) of
                  (Some err, s2) \<Rightarrow>
                    Some (Rejected err, d1\<lparr>server := s2\<rparr>,
                      CallRemoveRemote remotePath # t1 @ [SftpStat remotePath, SftpUnlink remotePath])
                | (None, s2) \<Rightarrow>
                    Some (Resolved (), d1\<lparr>server := s2\<rparr>,
                      CallRemoveRemote remotePath # t1 @ [SftpStat remotePath, SftpUnlink remotePath])))
      | (_, d1, t1) \<Rightarrow> Some (Pending, d1, CallRemoveRemote remotePath # t1))"
| "removeChildren fuel srv remotePath [] d = Some (Resolved (), d, [])"
| "removeChildren fuel srv remotePath (filename # rest) d =
     (case removeRemote fuel srv (remotePath @ [filename]) d of
        None \<Rightarrow> None
      | Some (r1, d1, t1) \<Rightarrow>
          (case removeChildren fuel srv remotePath rest d1 of
             None \<Rightarrow> None
           | Some (r2, d2, t2) \<Rightarrow> Some (promiseAll2 r1 r2, d2, t1 @ t2)))"

section \<open>The reconciler\<close>

text \<open>\<^verbatim>\<open>noop\<close> resolves at once.\<close>

definition noop :: "'s deployer \<Rightarrow> unit outcome \<times> 's deployer \<times> event list" where
  "noop d = (Resolved (), d, [CallNoop])"

text \<open>\<^verbatim>\<open>preMethod\<close>: the removal when the task asks for it, a resolved promise otherwise.\<close>

definition preMethod :: "nat \<Rightarrow> 's sftp_server \<Rightarrow> task \<Rightarrow> path \<Rightarrow> 's deployer
    \<Rightarrow> (unit outcome \<times> 's deployer \<times> event list) option" where
  "preMethod fuel srv task remoteFilePath d =
     (if removeRemoteFirst task then removeRemote fuel srv remoteFilePath d
      else Some (Resolved (), d, []))"

text \<open>The child of the local directory that a name of the project denotes.\<close>

fun localChild :: "lnode option \<Rightarrow> string \<Rightarrow> lnode option" where
  "localChild (Some (LocalDir localList)) filename = map_of localList filename"
| "localChild _ filename = None"

text \<open>
  \<^verbatim>\<open>sync\<close>: the project of the level, then one operation for each entry. In a dry run
  the operation is the \<^verbatim>\<open>sync\<close> of the entry when its method is \<open>Sync\<close> or its local
  side is a directory; the call is made in the loop itself, so what it throws ends the
  loop. Otherwise the operation is \<^verbatim>\<open>preMethod.then(() => this[task.method](..))\<close>.
  The promise of \<^verbatim>\<open>sync\<close> resolves to \<^verbatim>\<open>true\<close>; the model keeps no value. As for
  \<open>upload\<close>, the operations of a level run one after the other in the model, in the
  order of the project.
\<close>

function sync :: "options \<Rightarrow> 's sftp_server \<Rightarrow> nat \<Rightarrow> path \<Rightarrow> lnode option \<Rightarrow> path \<Rightarrow> 's deployer
    \<Rightarrow> (unit outcome \<times> 's deployer \<times> event list) option"
and syncEntries :: "options \<Rightarrow> 's sftp_server \<Rightarrow> nat \<Rightarrow> path \<Rightarrow> (string \<times> lnode) list \<Rightarrow> path
    \<Rightarrow> (string \<times> stats) list \<Rightarrow> 's deployer
    \<Rightarrow> (unit outcome \<times> 's deployer \<times> event list) option" where
  "sync opts srv fuel localPath node remotePath d =
     (case buildProject opts srv localPath node remotePath d of
        (Resolved project, d1, t1) \<Rightarrow>
          (case node of
             Some (LocalDir localList) \<Rightarrow>
               (case syncEntries opts srv fuel localPath localList remotePath project d1 of
                  None \<Rightarrow> None
                | Some (r, d2, t2) \<Rightarrow> Some (inThen r, d2, CallSync localPath remotePath # t1 @ t2))
           | _ \<Rightarrow> Some (Threw ENOTDIR, d1, CallSync localPath remotePath # t1))
      | (Rejected err, d1, t1) \<Rightarrow> Some (Rejected err, d1, CallSync localPath remotePath # t1)
      | (Pending, d1, t1) \<Rightarrow> Some (Pending, d1, CallSync localPath remotePath # t1)
      | (Threw err, d1, t1) \<Rightarrow> Some (Threw err, d1, CallSync localPath remotePath # t1))"
| "syncEntries opts srv fuel localPath localList remotePath [] d = Some (Resolved (), d, [])"
| "syncEntries opts srv fuel localPath localList remotePath ((filename, st) # rest) d =
     (let localFilePath = localPath @ [filename];
          remoteFilePath = remotePath @ [filename];
          task = getTask opts st
      in if dryRun opts then
           (if taskMethod task = Sync \<or> local st = LDir then
              (case sync opts srv fuel localFilePath (map_of localList filename) remoteFilePath d of
                 None \<Rightarrow> None
               | Some (Threw err, d1, t1) \<Rightarrow> Some (Threw err, d1, Decide localFilePath st task # t1)
               | Some (r1, d1, t1) \<Rightarrow>
                   (case syncEntries opts srv fuel localPath localList remotePath rest d1 of
                      None \<Rightarrow> None
                    | Some (r2, d2, t2) \<Rightarrow>
                        Some (promiseAll2 r1 r2, d2, Decide localFilePath st task # t1 @ t2)))
            else
              (case syncEntries opts srv fuel localPath localList remotePath rest d of
                 None \<Rightarrow> None
               | Some (r2, d2, t2) \<Rightarrow> Some (r2, d2, Decide localFilePath st task # t2)))
         else
           (case preMethod fuel srv task remoteFilePath d of
              None \<Rightarrow> None
            | Some (Resolved u, d0, t0) \<Rightarrow>
                (case (case taskMethod task of
                         Upload \<Rightarrow>
                           Some (upload opts srv localFilePath (map_of localList filename) remoteFilePath d0)
                       | Sync \<Rightarrow>
                           sync opts srv fuel localFilePath (map_of localList filename) remoteFilePath d0
                       | Noop \<Rightarrow> Some (noop d0)) of
                   None \<Rightarrow> None
                 | Some (r1, d1, t1) \<Rightarrow>
                     (case syncEntries opts srv fuel localPath localList remotePath rest d1 of
                        None \<Rightarrow> None
                      | Some (r2, d2, t2) \<Rightarrow>
                          Some (promiseAll2 (inThen r1) r2, d2,
                                Decide localFilePath st task # t0 @ t1 @ t2)))
            | Some (r0, d0, t0) \<Rightarrow>
                (case syncEntries opts srv fuel localPath localList remotePath rest d0 of
                   None \<Rightarrow> None
                 | Some (r2, d2, t2) \<Rightarrow>
                     Some (promiseAll2 r0 r2, d2, Decide localFilePath st task # t0 @ t2))))"
  by pat_completeness auto
termination
proof -
  have est: "size c < size_list (size_prod (\<lambda>_. 0) size) localList"
    if "map_of localList filename = Some c" for localList :: "(string \<times> lnode) list" and filename c
  proof -
    from that have "(filename, c) \<in> set localList" by (rule map_of_SomeD)
    then have "size_prod (\<lambda>_. 0) size (filename, c) \<le> size_list (size_prod (\<lambda>_. 0) size) localList"
      by (rule size_list_estimation') simp
    then show ?thesis by simp
  qed
  have dec: "2 * size_option size (map_of localList filename)
      < 2 * size_list (size_prod (\<lambda>_. 0) size) localList + 3"
    for localList :: "(string \<times> lnode) list" and filename
    using est [of localList filename] by (cases "map_of localList filename") auto
  show ?thesis
    by (relation "measures [\<lambda>x. case x of
          Inl (opts, srv, fuel, lp, node, rp, d) \<Rightarrow> 2 * size_option size node
        | Inr (opts, srv, fuel, lp, localList, rp, project, d) \<Rightarrow>
            2 * size_list (size_prod (\<lambda>_. 0) size) localList + 3,
        \<lambda>x. case x of
          Inl _ \<Rightarrow> 0
        | Inr (opts, srv, fuel, lp, localList, rp, project, d) \<Rightarrow> length project]")
      (auto simp: dec)
qed


text \<open>
  The operation that the loop of \<^verbatim>\<open>sync\<close> starts for one entry, read off the loop
  body: in a dry run the \<^verbatim>\<open>sync\<close> of the entry or nothing, otherwise the removal when
  the task asks for it and then the method of the task.
\<close>

definition entryOp :: "options \<Rightarrow> 's sftp_server \<Rightarrow> nat \<Rightarrow> path \<Rightarrow> (string \<times> lnode) list \<Rightarrow> path
    \<Rightarrow> string \<Rightarrow> stats \<Rightarrow> 's deployer \<Rightarrow> (unit outcome \<times> 's deployer \<times> event list) option" where
  "entryOp opts srv fuel localPath localList remotePath filename st d =
     (let localFilePath = localPath @ [filename];
          remoteFilePath = remotePath @ [filename];
          task = getTask opts st
      in if dryRun opts then
           (if taskMethod task = Sync \<or> local st = LDir
            then sync opts srv fuel localFilePath (map_of localList filename) remoteFilePath d
            else Some (Resolved (), d, []))
         else
           (case preMethod fuel srv task remoteFilePath d of
              None \<Rightarrow> None
            | Some (Resolved u, d0, t0) \<Rightarrow>
                (case (case taskMethod task of
                         Upload \<Rightarrow>
                           Some (upload opts srv localFilePath (map_of localList filename) remoteFilePath d0)
                       | Sync \<Rightarrow>
                           sync opts srv fuel localFilePath (map_of localList filename) remoteFilePath d0
                       | Noop \<Rightarrow> Some (noop d0)) of
                   None \<Rightarrow> None
                 | Some (r1, d1, t1) \<Rightarrow> Some (inThen r1, d1, t0 @ t1))
            | Some (r0, d0, t0) \<Rightarrow> Some (r0, d0, t0)))"

text \<open>The condition under which the loop of a dry run calls \<^verbatim>\<open>sync\<close> for an entry.\<close>

definition recurses :: "options \<Rightarrow> stats \<Rightarrow> bool" where
  "recurses opts st \<longleftrightarrow> taskMethod (getTask opts st) = Sync \<or> local st = LDir"

text \<open>
  A path \<open>localPath @ s\<close> below \<open>localPath\<close> is excluded when the matcher ignores it or
  one of the directories on the way down to it; \<open>isDir\<close> says whether the path itself
  is a directory.
\<close>

fun excludedBelow :: "options \<Rightarrow> path \<Rightarrow> path \<Rightarrow> bool \<Rightarrow> bool" where
  "excludedBelow opts localPath [] isDir = False"
| "excludedBelow opts localPath [x] isDir = isIgnored opts (localPath @ [x]) isDir"
| "excludedBelow opts localPath (x # y # ys) isDir =
     (isIgnored opts (localPath @ [x]) True \<or> excludedBelow opts (localPath @ [x]) (y # ys) isDir)"

section \<open>An in-memory server\<close>

text \<open>
  A server to run the deployer against: the remote file system as an association list
  from the paths that exist to whether each is a directory; the root always exists and
  is a directory. Its requests fail only where the file system does not allow them:
  code 2 is "no such file", code 4 is "failure". A directory is removed only when it is
  empty, a file is put only into a directory that exists, and a directory is made only
  where nothing exists.
\<close>

type_synonym memfs = "(path \<times> bool) list"

definition mem_kind :: "memfs \<Rightarrow> path \<Rightarrow> bool option" where
  "mem_kind fs p = (if p = [] then Some True else map_of fs p)"

definition mem_names :: "path \<Rightarrow> memfs \<Rightarrow> string list" where
  "mem_names p fs = map (\<lambda>(q, k). last q) (filter (\<lambda>(q, k). q \<noteq> [] \<and> butlast q = p) fs)"

definition mem_readdir :: "path \<Rightarrow> memfs \<Rightarrow> error + string list" where
  "mem_readdir p fs =
     (case mem_kind fs p of
        Some True \<Rightarrow> Inr (mem_names p fs)
      | _ \<Rightarrow> Inl (SftpError 2))"

definition mem_stat :: "path \<Rightarrow> memfs \<Rightarrow> error + bool" where
  "mem_stat p fs = (case mem_kind fs p of None \<Rightarrow> Inl (SftpError 2) | Some k \<Rightarrow> Inr k)"

definition mem_mkdir :: "path \<Rightarrow> memfs \<Rightarrow> error option \<times> memfs" where
  "mem_mkdir p fs =
     (if mem_kind fs p \<noteq> None then (Some (SftpError 4), fs)
      else if mem_kind fs (butlast p) = Some True then (None, AList.update p True fs)
      else (Some (SftpError 2), fs))"

definition mem_fastPut :: "path \<Rightarrow> path \<Rightarrow> memfs \<Rightarrow> error option \<times> memfs" where
  "mem_fastPut localPath p fs =
     (if mem_kind fs p = Some True then (Some (SftpError 4), fs)
      else if mem_kind fs (butlast p) = Some True then (None, AList.update p False fs)
      else (Some (SftpError 2), fs))"

definition mem_unlink :: "path \<Rightarrow> memfs \<Rightarrow> error option \<times> memfs" where
  "mem_unlink p fs =
     (case mem_kind fs p of
        None \<Rightarrow> (Some (SftpError 2), fs)
      | Some True \<Rightarrow> (Some (SftpError 4), fs)
      | Some False \<Rightarrow> (None, AList.delete p fs))"

definition mem_rmdir :: "path \<Rightarrow> memfs \<Rightarrow> error option \<times> memfs" where
  "mem_rmdir p fs =
     (case mem_kind fs p of
        None \<Rightarrow> (Some (SftpError 2), fs)
      | Some False \<Rightarrow> (Some (SftpError 4), fs)
      | Some True \<Rightarrow>
          (if p = [] \<or> mem_names p fs \<noteq> [] then (Some (SftpError 4), fs)
           else (None, AList.delete p fs)))"

definition mem_server :: "memfs sftp_server" where
  "mem_server =
     \<lparr>client_sftp = Inr 1, readdir = mem_readdir, stat = mem_stat, mkdir = mem_mkdir,
      fastPut = mem_fastPut, unlink = mem_unlink, rmdir = mem_rmdir\<rparr>"

text \<open>The options of a run with the classifier of the spec; a pattern matches the path
  equal to it.\<close>

definition spec_options :: "bool \<Rightarrow> string list \<Rightarrow> options" where
  "spec_options dry patterns =
     \<lparr>dryRun = dry, exclude = patterns, minimatch = (\<lambda>p pattern. p = pattern),
      getTask = spec_getTask\<rparr>"

text \<open>The events that change the remote side, or call a method that does.\<close>

fun mutation :: "event \<Rightarrow> bool" where
  "mutation (CallUpload _ _) = True"
| "mutation (CallRemoveRemote _) = True"
| "mutation (SftpMkdir _) = True"
| "mutation (SftpFastPut _ _) = True"
| "mutation (SftpUnlink _) = True"
| "mutation (SftpRmdir _) = True"
| "mutation _ = False"


text \<open>The events of an upload: the node itself is put or made, and what lies below it is
  put or made only where nothing on the way is excluded.\<close>

definition uploadEvent :: "options \<Rightarrow> path \<Rightarrow> path \<Rightarrow> bool \<Rightarrow> event \<Rightarrow> bool" where
  "uploadEvent opts lp rp dir e \<longleftrightarrow>
     e = ClientSftp \<or> e = CallUpload lp rp
     \<or> (\<not> dir \<and> e = SftpFastPut lp rp)
     \<or> (dir \<and> (e = SftpMkdir rp
          \<or> (\<exists>s isDir. s \<noteq> [] \<and> \<not> excludedBelow opts lp s isDir
                \<and> (e = CallUpload (lp @ s) (rp @ s)
                   \<or> (\<not> isDir \<and> e = SftpFastPut (lp @ s) (rp @ s))
                   \<or> (isDir \<and> e = SftpMkdir (rp @ s))))))"

definition childEvent :: "options \<Rightarrow> path \<Rightarrow> path \<Rightarrow> event \<Rightarrow> bool" where
  "childEvent opts lp rp e \<longleftrightarrow>
     e = ClientSftp
     \<or> (\<exists>s isDir. s \<noteq> [] \<and> \<not> excludedBelow opts lp s isDir
                \<and> (e = CallUpload (lp @ s) (rp @ s)
                   \<or> (\<not> isDir \<and> e = SftpFastPut (lp @ s) (rp @ s))
                   \<or> (isDir \<and> e = SftpMkdir (rp @ s))))"

text \<open>
  The remote path an event is about; the events of a removal and those of a corrective
  action; and the order of a trace: once a corrective event on a path has occurred, no
  event of a removal of that path follows.
\<close>

fun rpath :: "event \<Rightarrow> path option" where
  "rpath (CallSync l q) = Some q"
| "rpath (CallUpload l q) = Some q"
| "rpath (CallRemoveRemote q) = Some q"
| "rpath CallNoop = None"
| "rpath (Decide l st task) = None"
| "rpath ClientSftp = None"
| "rpath (SftpReaddir q) = Some q"
| "rpath (SftpStat q) = Some q"
| "rpath (SftpMkdir q) = Some q"
| "rpath (SftpFastPut l q) = Some q"
| "rpath (SftpUnlink q) = Some q"
| "rpath (SftpRmdir q) = Some q"

fun removal :: "event \<Rightarrow> bool" where
  "removal (CallRemoveRemote q) = True"
| "removal (SftpUnlink q) = True"
| "removal (SftpRmdir q) = True"
| "removal _ = False"

fun corrective :: "event \<Rightarrow> bool" where
  "corrective (CallSync l q) = True"
| "corrective (CallUpload l q) = True"
| "corrective (SftpMkdir q) = True"
| "corrective (SftpFastPut l q) = True"
| "corrective _ = False"

fun removalsFirst :: "event list \<Rightarrow> bool" where
  "removalsFirst [] = True"
| "removalsFirst (e # t) =
     ((if corrective e then list_all (\<lambda>e'. \<not> (removal e' \<and> rpath e' = rpath e)) t else True)
      \<and> removalsFirst t)"

definition under :: "path \<Rightarrow> event \<Rightarrow> bool" where
  "under rp e = (case rpath e of None \<Rightarrow> True | Some q \<Rightarrow> prefix rp q)"

section \<open>Basic facts\<close>

lemma promiseAll2_Resolved_left: "promiseAll2 (Resolved u) r = r"
  by (cases r) auto

lemma getSftp_server: "getSftp srv d = (r, d', t) \<Longrightarrow> server d' = server d \<and> set t \<subseteq> {ClientSftp}"
  by (auto simp: getSftp_def split: option.splits sum.splits)

lemma getSftp_not_Threw: "getSftp srv d \<noteq> (Threw e, d', t)"
  by (auto simp: getSftp_def split: option.splits sum.splits)

lemma removeRemote_not_Threw_aux:
  "removeRemote fuel srv rp d = Some (r, d', t) \<Longrightarrow> \<forall>e. r \<noteq> Threw e"
  "removeChildren fuel srv rp names d = Some (r, d', t) \<Longrightarrow> \<forall>e. r \<noteq> Threw e"
proof (induction fuel srv rp d and fuel srv rp names d arbitrary: r d' t and r d' t rule: removeRemote_removeChildren.induct)
  case (1 srv remotePath d)
  then show ?case by simp
next
  case (2 fuel srv remotePath d)
  then show ?case
    by (auto split: prod.splits outcome.splits sum.splits bool.splits option.splits if_splits)
next
  case (3 fuel srv remotePath d)
  then show ?case by auto
next
  case (4 fuel srv remotePath filename rest d)
  from "4.prems" obtain r1 d1 t1 r2 d2 t2 where
    a: "removeRemote fuel srv (remotePath @ [filename]) d = Some (r1, d1, t1)"
    and b: "removeChildren fuel srv remotePath rest d1 = Some (r2, d2, t2)"
    and r: "r = promiseAll2 r1 r2"
    by (auto split: option.splits prod.splits)
  from "4.IH"(1) [OF a] have "\<forall>e. r1 \<noteq> Threw e" .
  moreover from "4.IH"(2) [OF a refl refl b] have "\<forall>e. r2 \<noteq> Threw e" .
  ultimately show ?case unfolding r by (cases r1; cases r2) auto
qed

lemma removeRemote_not_Threw: "removeRemote fuel srv rp d = Some (r, d', t) \<Longrightarrow> r \<noteq> Threw e"
  using removeRemote_not_Threw_aux(1) by blast

lemma preMethod_not_Threw: "preMethod fuel srv task rp d = Some (r, d', t) \<Longrightarrow> r \<noteq> Threw e"
  by (auto simp: preMethod_def removeRemote_not_Threw split: if_splits)

lemma syncEntries_Cons:
  "syncEntries opts srv fuel lp localList rp ((filename, st) # rest) d =
     (case entryOp opts srv fuel lp localList rp filename st d of
        None \<Rightarrow> None
      | Some (Threw err, d1, t1) \<Rightarrow> Some (Threw err, d1, Decide (lp @ [filename]) st (getTask opts st) # t1)
      | Some (r1, d1, t1) \<Rightarrow>
          (case syncEntries opts srv fuel lp localList rp rest d1 of
             None \<Rightarrow> None
           | Some (r2, d2, t2) \<Rightarrow>
               Some (promiseAll2 r1 r2, d2, Decide (lp @ [filename]) st (getTask opts st) # t1 @ t2)))"
proof (cases "dryRun opts")
  case True
  then show ?thesis
    by (simp add: entryOp_def Let_def promiseAll2_Resolved_left split: option.splits prod.splits outcome.splits)
next
  case False
  show ?thesis
  proof (cases "preMethod fuel srv (getTask opts st) (rp @ [filename]) d")
    case None
    then show ?thesis using False by (simp add: entryOp_def Let_def)
  next
    case (Some x)
    obtain r0 d0 t0 where x: "x = (r0, d0, t0)" by (cases x)
    have nt: "r0 \<noteq> Threw e" for e using Some x preMethod_not_Threw by fastforce
    show ?thesis
    proof (cases r0)
      case (Resolved u)
      have inT: "inThen r \<noteq> Threw e" for r e by (cases r) auto
      show ?thesis using False Some x Resolved
        apply (simp add: entryOp_def Let_def)
        apply (cases "(case taskMethod (getTask opts st) of
                 Upload \<Rightarrow> Some (upload opts srv (lp @ [filename]) (map_of localList filename) (rp @ [filename]) d0)
               | Sync \<Rightarrow> sync opts srv fuel (lp @ [filename]) (map_of localList filename) (rp @ [filename]) d0
               | Noop \<Rightarrow> Some (noop d0))")
         apply simp
        subgoal for y
          apply (cases y)
          subgoal for r1 d1 t1
            apply (cases "inThen r1")
            using inT [of r1] by (auto split: option.splits)
          done
        done
    next
      case (Threw e)
      then show ?thesis using nt by simp
    qed (use False Some x in \<open>simp_all add: entryOp_def Let_def split: option.splits\<close>)
  qed
qed

lemma sync_syncEntries_induct [case_names sync Nil Cons]:
  fixes P :: "options \<Rightarrow> 's sftp_server \<Rightarrow> nat \<Rightarrow> path \<Rightarrow> lnode option \<Rightarrow> path \<Rightarrow> bool"
    and Q :: "options \<Rightarrow> 's sftp_server \<Rightarrow> nat \<Rightarrow> path \<Rightarrow> (string \<times> lnode) list \<Rightarrow> path \<Rightarrow> (string \<times> stats) list \<Rightarrow> bool"
  assumes S: "\<And>opts srv fuel lp node rp.
      (\<And>localList project. node = Some (LocalDir localList) \<Longrightarrow> Q opts srv fuel lp localList rp project)
      \<Longrightarrow> P opts srv fuel lp node rp"
    and N: "\<And>opts srv fuel lp localList rp. Q opts srv fuel lp localList rp []"
    and C: "\<And>opts srv fuel lp localList rp filename st rest.
      P opts srv fuel (lp @ [filename]) (map_of localList filename) (rp @ [filename])
      \<Longrightarrow> Q opts srv fuel lp localList rp rest
      \<Longrightarrow> Q opts srv fuel lp localList rp ((filename, st) # rest)"
  shows "P opts srv fuel lp node rp" and "Q opts srv fuel lp localList rp project"
proof -
  have A: "\<forall>lp rp. P opts srv fuel lp (Some n) rp" for n
  proof (induction n)
    case LocalFile
    show ?case by (auto intro: S)
  next
    case (LocalDir cs)
    have B: "Q opts srv fuel lp cs rp project" for lp rp project
    proof (induction project)
      case Nil
      show ?case by (rule N)
    next
      case (Cons e project)
      obtain filename st where e: "e = (filename, st)" by (cases e)
      have "P opts srv fuel (lp @ [filename]) (map_of cs filename) (rp @ [filename])"
      proof (cases "map_of cs filename")
        case None
        then show ?thesis by (auto intro: S)
      next
        case (Some n')
        then have "(filename, n') \<in> set cs" by (rule map_of_SomeD)
        from LocalDir.IH [OF this] have "\<forall>lp rp. P opts srv fuel lp (Some n') rp" by simp
        then show ?thesis using Some by simp
      qed
      from C [OF this Cons.IH] show ?case unfolding e .
    qed
    show ?case by (auto intro: S B)
  qed
  have PP: "P opts srv fuel lp node rp" for lp node rp
    by (cases node) (auto intro: S simp: A)
  show "P opts srv fuel lp node rp" by (rule PP)
  show "Q opts srv fuel lp localList rp project"
    by (induction project) (auto intro: N C PP)
qed

declare sync.simps [simp del] syncEntries.simps(2) [simp del]


section \<open>The classifier of the spec\<close>

text \<open>
  C5. For an entry that is a file or a directory locally, the classifier asks for the
  removal of the remote entry exactly when the remote entry is of the other type: never
  when the types agree, and never when the remote entry is absent.
\<close>

theorem type_change_removes_remote:
  assumes "local st = LFile \<or> local st = LDir"
  shows "removeRemoteFirst (spec_getTask st) \<longleftrightarrow>
           (local st = LFile \<and> remote st = RDir) \<or> (local st = LDir \<and> remote st = RFile)"
  using assms by (auto simp: spec_getTask_def)

theorem type_change_removes_remote_witness:
  "local \<lparr>local = LFile, remote = RDir\<rparr> = LFile
   \<and> removeRemoteFirst (spec_getTask \<lparr>local = LFile, remote = RDir\<rparr>)
   \<and> \<not> removeRemoteFirst (spec_getTask \<lparr>local = LFile, remote = RFile\<rparr>)
   \<and> \<not> removeRemoteFirst (spec_getTask \<lparr>local = LDir, remote = RAbsent\<rparr>)"
  using type_change_removes_remote [of "\<lparr>local = LFile, remote = RDir\<rparr>"]
    type_change_removes_remote [of "\<lparr>local = LFile, remote = RFile\<rparr>"]
    type_change_removes_remote [of "\<lparr>local = LDir, remote = RAbsent\<rparr>"]
  by simp

text \<open>
  C3. An entry that is ignored locally is classified \<open>Noop\<close> with no removal, whatever the
  remote side is; and the loop of \<open>sync\<close> then does nothing for it: in a run with this
  classifier the entry adds its decision (and, outside a dry run, the call of \<open>noop\<close>) to
  the trace, sends no request, and hands the deployer unchanged to the entries after it.
\<close>

theorem ignored_entry_untouched:
  assumes "local st = LIgnored" and "getTask opts = spec_getTask"
  shows "spec_getTask st = \<lparr>taskMethod = Noop, removeRemoteFirst = False\<rparr>
    \<and> syncEntries opts srv fuel lp localList rp ((filename, st) # rest) d =
        map_option (\<lambda>(r, d', t).
            (r, d', Decide (lp @ [filename]) st (spec_getTask st)
                    # (if dryRun opts then [] else [CallNoop]) @ t))
          (syncEntries opts srv fuel lp localList rp rest d)"
proof -
  have task: "spec_getTask st = \<lparr>taskMethod = Noop, removeRemoteFirst = False\<rparr>"
    using assms(1) by (simp add: spec_getTask_def)
  have op: "entryOp opts srv fuel lp localList rp filename st d =
      Some (Resolved (), d, if dryRun opts then [] else [CallNoop])"
    using assms task by (simp add: entryOp_def preMethod_def noop_def)
  show ?thesis
    using task assms(2)
    by (simp add: syncEntries_Cons op promiseAll2_Resolved_left split: option.splits)
qed

theorem ignored_entry_untouched_witness:
  "local \<lparr>local = LIgnored, remote = RFile\<rparr> = LIgnored
   \<and> getTask (spec_options False [''logs/'']) = spec_getTask
   \<and> spec_getTask \<lparr>local = LIgnored, remote = RFile\<rparr> = \<lparr>taskMethod = Noop, removeRemoteFirst = False\<rparr>
   \<and> syncEntries (spec_options False [''logs/'']) mem_server 3 [] [(''logs'', LocalDir [])] []
        [(''logs'', \<lparr>local = LIgnored, remote = RFile\<rparr>)] \<lparr>sftp = Some 1, server = [([''logs''], False)]\<rparr>
      = Some (Resolved (), \<lparr>sftp = Some 1, server = [([''logs''], False)]\<rparr>,
          [Decide [''logs''] \<lparr>local = LIgnored, remote = RFile\<rparr> \<lparr>taskMethod = Noop, removeRemoteFirst = False\<rparr>,
           CallNoop])"
  using ignored_entry_untouched [of "\<lparr>local = LIgnored, remote = RFile\<rparr>" "spec_options False [''logs/'']"
      mem_server 3 "[]" "[(''logs'', LocalDir [])]" "[]" "''logs''" "[]"
      "\<lparr>sftp = Some 1, server = [([''logs''], False)]\<rparr>"]
  by (simp add: spec_options_def)

section \<open>The session is cached\<close>




lemma count_stats_ClientSftp [simp]:
  "count_list (map (\<lambda>filename. SftpStat (rp @ [filename])) names) ClientSftp = 0"
  by (induction names) auto








section \<open>The scanner\<close>

lemma set_update_cases:
  "(k', v') \<in> set (AList.update k v al) \<Longrightarrow> (k', v') = (k, v) \<or> (k', v') \<in> set al"
  by (induction al) (auto split: if_splits)

lemma localProject_remote_absent:
  "\<forall>(f, st)\<in>set project. remote st = RAbsent \<Longrightarrow>
   \<forall>(f, st)\<in>set (localProject opts lp localList project). remote st = RAbsent"
proof (induction localList arbitrary: project)
  case Nil
  then show ?case by simp
next
  case (Cons e localList)
  obtain filename node where e: "e = (filename, node)" by (cases e)
  have "\<forall>(f, st)\<in>set (AList.update filename
          \<lparr>local = localStatus opts (lp @ [filename]) node, remote = RAbsent\<rparr> project). remote st = RAbsent"
    using Cons.prems by (auto dest!: set_update_cases)
  from Cons.IH [OF this] show ?case by (simp add: e)
qed

lemma remoteStats_stat_error:
  "filename \<in> set names \<Longrightarrow> stat srv (rp @ [filename]) s = Inl err \<Longrightarrow>
   fst (remoteStats srv rp names s project) \<noteq> None"
proof (induction names arbitrary: project)
  case Nil
  then show ?case by simp
next
  case (Cons n names)
  show ?case
  proof (cases "stat srv (rp @ [n]) s")
    case (Inl e)
    then show ?thesis by (simp split: prod.splits)
  next
    case (Inr isDir)
    with Cons.prems have "filename \<in> set names" by auto
    from Cons.IH [OF this Cons.prems(2)] show ?thesis using Inr by simp
  qed
qed

text \<open>
  C6. With the session at hand, the scan of a level whose remote listing fails with
  code 2 ("no such file") resolves, to the map of the local entries, in which every
  remote side is absent; a listing that fails with any other error rejects the scan with
  that error; and so does, with some error, a \<open>stat\<close> of a listed name that fails.
\<close>

theorem scan_remote_errors:
  assumes "getSftp srv d = (Resolved h, d1, t1)"
  shows "(readdir srv rp (server d1) = Inl (SftpError 2) \<longrightarrow>
            fst (buildProject opts srv lp (Some (LocalDir localList)) rp d)
              = Resolved (localProject opts lp localList [])
            \<and> (\<forall>(f, st)\<in>set (localProject opts lp localList []). remote st = RAbsent))
     \<and> (\<forall>err. readdir srv rp (server d1) = Inl err \<and> err \<noteq> SftpError 2 \<longrightarrow>
            fst (buildProject opts srv lp (Some (LocalDir localList)) rp d) = Rejected err)
     \<and> (\<forall>remoteList filename err.
            readdir srv rp (server d1) = Inr remoteList \<and> filename \<in> set remoteList
            \<and> stat srv (rp @ [filename]) (server d1) = Inl err \<longrightarrow>
            (\<exists>e. fst (buildProject opts srv lp (Some (LocalDir localList)) rp d) = Rejected e))"
proof (intro conjI allI impI)
  assume "readdir srv rp (server d1) = Inl (SftpError 2)"
  then show "fst (buildProject opts srv lp (Some (LocalDir localList)) rp d)
      = Resolved (localProject opts lp localList [])"
    using assms by (simp add: buildProject_def)
next
  show "\<forall>(f, st)\<in>set (localProject opts lp localList []). remote st = RAbsent"
    by (rule localProject_remote_absent) simp
next
  fix err
  assume "readdir srv rp (server d1) = Inl err \<and> err \<noteq> SftpError 2"
  then show "fst (buildProject opts srv lp (Some (LocalDir localList)) rp d) = Rejected err"
    using assms by (simp add: buildProject_def)
next
  fix remoteList filename err
  assume a: "readdir srv rp (server d1) = Inr remoteList \<and> filename \<in> set remoteList
            \<and> stat srv (rp @ [filename]) (server d1) = Inl err"
  then have "fst (remoteStats srv rp remoteList (server d1) (localProject opts lp localList [])) \<noteq> None"
    using remoteStats_stat_error by fastforce
  then show "\<exists>e. fst (buildProject opts srv lp (Some (LocalDir localList)) rp d) = Rejected e"
    using assms a by (auto simp: buildProject_def Let_def split: prod.splits option.splits)
qed

theorem scan_remote_errors_witness:
  "getSftp mem_server \<lparr>sftp = Some 1, server = []\<rparr> = (Resolved 1, \<lparr>sftp = Some 1, server = []\<rparr>, [])
   \<and> fst (buildProject (spec_options False []) mem_server [] (Some (LocalDir [(''a.txt'', LocalFile)])) [''www'']
          \<lparr>sftp = Some 1, server = []\<rparr>)
       = Resolved [(''a.txt'', \<lparr>local = LFile, remote = RAbsent\<rparr>)]
   \<and> fst (buildProject (spec_options False []) (mem_server\<lparr>readdir := \<lambda>p s. Inl (SftpError 3)\<rparr>) []
          (Some (LocalDir [(''a.txt'', LocalFile)])) [''www''] \<lparr>sftp = Some 1, server = []\<rparr>)
       = Rejected (SftpError 3)
   \<and> (\<exists>e. fst (buildProject (spec_options False []) (mem_server\<lparr>readdir := \<lambda>p s. Inr [''x'']\<rparr>) []
          (Some (LocalDir [(''a.txt'', LocalFile)])) [''www''] \<lparr>sftp = Some 1, server = []\<rparr>)
       = Rejected e)"
proof -
  let ?d = "\<lparr>sftp = Some 1, server = []\<rparr> :: memfs deployer"
  let ?ls = "[(''a.txt'', LocalFile)]"
  have g: "getSftp srv ?d = (Resolved 1, ?d, [])" for srv :: "memfs sftp_server"
    by (simp add: getSftp_def)
  have a: "readdir mem_server [''www''] (server ?d) = Inl (SftpError 2)"
    by (simp add: mem_server_def mem_readdir_def mem_kind_def)
  have c: "stat (mem_server\<lparr>readdir := \<lambda>p s. Inr [''x'']\<rparr>) ([''www''] @ [''x'']) (server ?d) = Inl (SftpError 2)"
    by (simp add: mem_server_def mem_stat_def mem_kind_def)
  have l: "localProject (spec_options False []) [] ?ls [] = [(''a.txt'', \<lparr>local = LFile, remote = RAbsent\<rparr>)]"
    by (simp add: localStatus_def isIgnored_def spec_options_def)
  show ?thesis
    using scan_remote_errors [OF g, of mem_server "[''www'']" "spec_options False []" "[]" ?ls]
      scan_remote_errors [OF g, of "mem_server\<lparr>readdir := \<lambda>p s. Inl (SftpError 3)\<rparr>" "[''www'']"
        "spec_options False []" "[]" ?ls]
      scan_remote_errors [OF g, of "mem_server\<lparr>readdir := \<lambda>p s. Inr [''x'']\<rparr>" "[''www'']"
        "spec_options False []" "[]" ?ls]
      a c l g
    by simp
qed


section \<open>The dry run\<close>

lemma buildProject_readonly:
  "buildProject opts srv lp node rp d = (r, d', t) \<Longrightarrow>
     server d' = server d \<and> (\<forall>e\<in>set t. \<not> mutation e) \<and> (\<forall>l q. CallSync l q \<notin> set t)"
  by (auto simp: buildProject_def getSftp_def Let_def
      split: option.splits lnode.splits sum.splits if_splits prod.splits)

lemma localProject_distinct:
  "distinct (map fst project) \<Longrightarrow> distinct (map fst (localProject opts lp localList project))"
  by (induction localList arbitrary: project) (auto simp: distinct_update)

lemma remoteStats_distinct:
  "remoteStats srv rp names s project = (e, project') \<Longrightarrow> distinct (map fst project)
   \<Longrightarrow> distinct (map fst project')"
proof (induction names arbitrary: project e project')
  case Nil
  then show ?case by simp
next
  case (Cons n names)
  show ?case
  proof (cases "stat srv (rp @ [n]) s")
    case (Inl err)
    obtain e2 p2 where r: "remoteStats srv rp names s project = (e2, p2)"
      by (cases "remoteStats srv rp names s project")
    from Cons.IH [OF r Cons.prems(2)] Cons.prems(1) Inl r show ?thesis by simp
  next
    case (Inr isDir)
    have "distinct (map fst (setStat n isDir project))"
      using Cons.prems(2) by (simp add: setStat_def distinct_update split: option.splits)
    from Cons.IH [OF _ this] Cons.prems(1) Inr show ?thesis by simp
  qed
qed

lemma buildProject_distinct:
  assumes "buildProject opts srv lp node rp d = (Resolved project, d', t)"
  shows "distinct (map fst project)"
proof -
  have l: "distinct (map fst (localProject opts lp localList []))" for localList
    by (rule localProject_distinct) simp
  show ?thesis using assms l
    by (auto simp: buildProject_def Let_def dest: remoteStats_distinct
        split: option.splits lnode.splits sum.splits if_splits prod.splits outcome.splits)
qed

text \<open>In a dry run every call returns, the server is left as it is, and the trace holds no
  event that changes the remote side; a \<open>sync\<close> called below a level is called on a path
  below an entry of the level for which the loop recurses.\<close>

lemma entryOp_dry:
  "dryRun opts \<Longrightarrow> entryOp opts srv fuel lp localList rp filename st d =
     (if recurses opts st
      then sync opts srv fuel (lp @ [filename]) (map_of localList filename) (rp @ [filename]) d
      else Some (Resolved (), d, []))"
  by (simp add: entryOp_def recurses_def)

lemma sync_no_entries:
  "buildProject opts srv lp node rp d = (r1, d1, t1) \<Longrightarrow>
   \<not> (\<exists>project localList. r1 = Resolved project \<and> node = Some (LocalDir localList)) \<Longrightarrow>
   \<exists>r. sync opts srv fuel lp node rp d = Some (r, d1, CallSync lp rp # t1)"
  by (cases r1; cases node) (auto simp: sync.simps split: lnode.splits)

lemma sync_dry:
  "dryRun opts \<longrightarrow> (\<forall>d. \<exists>r d' t. sync opts srv fuel lp node rp d = Some (r, d', t)
      \<and> server d' = server d \<and> (\<forall>e\<in>set t. \<not> mutation e)
      \<and> CallSync lp rp \<in> set t \<and> (\<forall>l q. CallSync l q \<in> set t \<longrightarrow> prefix rp q))"
  "dryRun opts \<longrightarrow> (\<forall>d. \<exists>r d' t. syncEntries opts srv fuel lp localList rp project d = Some (r, d', t)
      \<and> server d' = server d \<and> (\<forall>e\<in>set t. \<not> mutation e)
      \<and> (\<forall>l q. CallSync l q \<in> set t \<longrightarrow>
            (\<exists>(filename, st)\<in>set project. recurses opts st \<and> prefix (rp @ [filename]) q))
      \<and> ((\<forall>e. r \<noteq> Threw e) \<longrightarrow>
            (\<forall>(filename, st)\<in>set project. recurses opts st \<longrightarrow>
               CallSync (lp @ [filename]) (rp @ [filename]) \<in> set t)))"
proof (induction opts srv fuel lp node rp and opts srv fuel lp localList rp project rule: sync_syncEntries_induct)
  case (sync opts srv fuel lp node rp)
  show ?case
  proof (intro allI impI)
    fix d
    assume dry: "dryRun opts"
    obtain r1 d1 t1 where bp: "buildProject opts srv lp node rp d = (r1, d1, t1)"
      by (cases "buildProject opts srv lp node rp d")
    note ro = buildProject_readonly [OF bp]
    show "\<exists>r d' t. sync opts srv fuel lp node rp d = Some (r, d', t)
      \<and> server d' = server d \<and> (\<forall>e\<in>set t. \<not> mutation e)
      \<and> CallSync lp rp \<in> set t \<and> (\<forall>l q. CallSync l q \<in> set t \<longrightarrow> prefix rp q)"
    proof (cases "\<exists>project localList. r1 = Resolved project \<and> node = Some (LocalDir localList)")
      case True
      then obtain project localList where R: "r1 = Resolved project" "node = Some (LocalDir localList)"
        by blast
      from sync.IH [OF R(2), of project] dry obtain r2 d2 t2 where
        se: "syncEntries opts srv fuel lp localList rp project d1 = Some (r2, d2, t2)"
        and 2: "server d2 = server d1" "\<forall>e\<in>set t2. \<not> mutation e"
          "\<forall>l q. CallSync l q \<in> set t2 \<longrightarrow>
            (\<exists>(filename, st)\<in>set project. recurses opts st \<and> prefix (rp @ [filename]) q)"
        by blast
      have s: "sync opts srv fuel lp node rp d = Some (inThen r2, d2, CallSync lp rp # t1 @ t2)"
        using bp R se by (simp add: sync.simps)
      have "prefix rp q" if "CallSync l q \<in> set t2" for l q
      proof -
        from 2(3) that obtain filename where "prefix (rp @ [filename]) q" by blast
        then show ?thesis by (auto simp: prefix_def)
      qed
      then show ?thesis using s ro 2 by auto
    next
      case False
      from sync_no_entries [OF bp this] obtain r where
        "sync opts srv fuel lp node rp d = Some (r, d1, CallSync lp rp # t1)" by blast
      then show ?thesis using ro by auto
    qed
  qed
next
  case (Nil opts srv fuel lp localList rp)
  show ?case by simp
next
  case (Cons opts srv fuel lp localList rp filename st rest)
  show ?case
  proof (intro allI impI)
    fix d
    assume dry: "dryRun opts"
    let ?goal = "\<exists>r d' t. syncEntries opts srv fuel lp localList rp ((filename, st) # rest) d = Some (r, d', t)
      \<and> server d' = server d \<and> (\<forall>e\<in>set t. \<not> mutation e)
      \<and> (\<forall>l q. CallSync l q \<in> set t \<longrightarrow>
            (\<exists>(filename, st)\<in>set ((filename, st) # rest). recurses opts st \<and> prefix (rp @ [filename]) q))
      \<and> ((\<forall>e. r \<noteq> Threw e) \<longrightarrow>
            (\<forall>(filename, st)\<in>set ((filename, st) # rest). recurses opts st \<longrightarrow>
               CallSync (lp @ [filename]) (rp @ [filename]) \<in> set t))"
    obtain r1 d1 t1 where op: "entryOp opts srv fuel lp localList rp filename st d = Some (r1, d1, t1)"
      and 1: "server d1 = server d" "\<forall>e\<in>set t1. \<not> mutation e"
        "\<forall>l q. CallSync l q \<in> set t1 \<longrightarrow> recurses opts st \<and> prefix (rp @ [filename]) q"
        "recurses opts st \<longrightarrow> CallSync (lp @ [filename]) (rp @ [filename]) \<in> set t1"
    proof (cases "recurses opts st")
      case True
      from Cons.IH(1) dry obtain r1 d1 t1 where
        "sync opts srv fuel (lp @ [filename]) (map_of localList filename) (rp @ [filename]) d = Some (r1, d1, t1)"
        "server d1 = server d" "\<forall>e\<in>set t1. \<not> mutation e"
        "CallSync (lp @ [filename]) (rp @ [filename]) \<in> set t1"
        "\<forall>l q. CallSync l q \<in> set t1 \<longrightarrow> prefix (rp @ [filename]) q"
        by blast
      then show ?thesis using that [of r1 d1 t1] True dry by (simp add: entryOp_dry)
    next
      case False
      then show ?thesis using that [of "Resolved ()" d "[]"] dry by (simp add: entryOp_dry)
    qed
    show ?goal
    proof (cases "\<exists>e. r1 = Threw e")
      case True
      then obtain e where e: "r1 = Threw e" by blast
      have "syncEntries opts srv fuel lp localList rp ((filename, st) # rest) d
          = Some (Threw e, d1, Decide (lp @ [filename]) st (getTask opts st) # t1)"
        using op e by (simp add: syncEntries_Cons)
      then show ?thesis using 1 by auto
    next
      case False
      from Cons.IH(2) dry obtain r2 d2 t2 where
        se: "syncEntries opts srv fuel lp localList rp rest d1 = Some (r2, d2, t2)"
        and 2: "server d2 = server d1" "\<forall>e\<in>set t2. \<not> mutation e"
          "\<forall>l q. CallSync l q \<in> set t2 \<longrightarrow>
            (\<exists>(filename, st)\<in>set rest. recurses opts st \<and> prefix (rp @ [filename]) q)"
          "(\<forall>e. r2 \<noteq> Threw e) \<longrightarrow>
            (\<forall>(filename, st)\<in>set rest. recurses opts st \<longrightarrow>
               CallSync (lp @ [filename]) (rp @ [filename]) \<in> set t2)"
        by blast
      have s: "syncEntries opts srv fuel lp localList rp ((filename, st) # rest) d
          = Some (promiseAll2 r1 r2, d2, Decide (lp @ [filename]) st (getTask opts st) # t1 @ t2)"
        using op se False by (cases r1) (auto simp: syncEntries_Cons)
      have nt: "\<forall>e. r2 \<noteq> Threw e" if "\<forall>e. promiseAll2 r1 r2 \<noteq> Threw e"
        using that by (cases r1; cases r2) auto
      show ?thesis
        unfolding s using 1 2 nt by (auto simp: ball_Un)
    qed
  qed
qed


lemma project_entry_unique:
  "distinct (map fst project) \<Longrightarrow> (f, st) \<in> set project \<Longrightarrow> (f, st') \<in> set project \<Longrightarrow> st = st'"
  by (meson eq_key_imp_eq_value)

text \<open>
  C1. In a dry run, at every level: \<open>sync\<close> returns, the server is left as it was, and
  the trace holds no call of \<open>upload\<close> or \<open>removeRemote\<close> and no \<open>mkdir\<close>, \<open>fastPut\<close>,
  \<open>unlink\<close> or \<open>rmdir\<close> request. For an entry of the project of the level, \<open>sync\<close> is
  called on the entry only if the method of its task is \<open>Sync\<close> or its local status is
  a directory, and it is called on every such entry unless a call in the loop threw.
\<close>

theorem preview_mutates_nothing:
  assumes "dryRun opts"
  shows "\<exists>r d' t. sync opts srv fuel lp node rp d = Some (r, d', t)
      \<and> server d' = server d \<and> (\<forall>e\<in>set t. \<not> mutation e)
      \<and> (\<forall>localList project d1 t1 r2 d2 t2.
            node = Some (LocalDir localList)
            \<and> buildProject opts srv lp node rp d = (Resolved project, d1, t1)
            \<and> syncEntries opts srv fuel lp localList rp project d1 = Some (r2, d2, t2) \<longrightarrow>
            (\<forall>(filename, st)\<in>set project.
               (CallSync (lp @ [filename]) (rp @ [filename]) \<in> set t
                  \<longrightarrow> taskMethod (getTask opts st) = Sync \<or> local st = LDir)
               \<and> ((\<forall>e. r2 \<noteq> Threw e) \<and> (taskMethod (getTask opts st) = Sync \<or> local st = LDir)
                  \<longrightarrow> CallSync (lp @ [filename]) (rp @ [filename]) \<in> set t)))"
proof -
  from sync_dry(1) [of opts srv fuel lp node rp] assms obtain r d' t where
    s: "sync opts srv fuel lp node rp d = Some (r, d', t)"
    and ro: "server d' = server d" "\<forall>e\<in>set t. \<not> mutation e"
    by blast
  have "(CallSync (lp @ [filename]) (rp @ [filename]) \<in> set t
                  \<longrightarrow> taskMethod (getTask opts st) = Sync \<or> local st = LDir)
       \<and> ((\<forall>e. r2 \<noteq> Threw e) \<and> (taskMethod (getTask opts st) = Sync \<or> local st = LDir)
                  \<longrightarrow> CallSync (lp @ [filename]) (rp @ [filename]) \<in> set t)"
    if n: "node = Some (LocalDir localList)"
      and bp: "buildProject opts srv lp node rp d = (Resolved project, d1, t1)"
      and se: "syncEntries opts srv fuel lp localList rp project d1 = Some (r2, d2, t2)"
      and mem: "(filename, st) \<in> set project"
    for localList project d1 t1 r2 d2 t2 filename st
  proof -
    have t: "t = CallSync lp rp # t1 @ t2"
      using s n bp se by (simp add: sync.simps)
    from sync_dry(2) [of opts srv fuel lp localList rp project] assms
    obtain r2' d2' t2' where
      se': "syncEntries opts srv fuel lp localList rp project d1 = Some (r2', d2', t2')"
      and bwd': "\<forall>l q. CallSync l q \<in> set t2' \<longrightarrow>
            (\<exists>(filename, st)\<in>set project. recurses opts st \<and> prefix (rp @ [filename]) q)"
      and fwd': "(\<forall>e. r2' \<noteq> Threw e) \<longrightarrow>
            (\<forall>(filename, st)\<in>set project. recurses opts st \<longrightarrow>
               CallSync (lp @ [filename]) (rp @ [filename]) \<in> set t2')"
      by blast
    from se se' have eq: "r2' = r2" "t2' = t2" by simp_all
    note bwd = bwd' [unfolded eq] and fwd = fwd' [unfolded eq]
    have "recurses opts st" if c: "CallSync (lp @ [filename]) (rp @ [filename]) \<in> set t"
    proof -
      from c t buildProject_readonly [OF bp] have "CallSync (lp @ [filename]) (rp @ [filename]) \<in> set t2"
        by auto
      with bwd obtain g st' where g: "(g, st') \<in> set project" "recurses opts st'"
        "prefix (rp @ [g]) (rp @ [filename])" by blast
      from g(3) have "g = filename" by simp
      with g(1) mem buildProject_distinct [OF bp] have "st' = st"
        using project_entry_unique by fastforce
      with g(2) show ?thesis by simp
    qed
    moreover have "CallSync (lp @ [filename]) (rp @ [filename]) \<in> set t"
      if "\<forall>e. r2 \<noteq> Threw e" "recurses opts st"
      using fwd that mem t by auto
    ultimately show ?thesis by (auto simp: recurses_def)
  qed
  then show ?thesis using s ro by blast
qed

theorem preview_mutates_nothing_witness:
  "dryRun (spec_options True [''logs/''])
   \<and> sync (spec_options True [''logs/'']) mem_server 0 []
        (Some (LocalDir [(''a.txt'', LocalFile), (''sub'', LocalDir [(''x.txt'', LocalFile)]), (''logs'', LocalDir [])]))
        [] \<lparr>sftp = None, server = [([''old.txt''], False), ([''sub''], False)]\<rparr>
      = Some (Resolved (), \<lparr>sftp = Some 1, server = [([''old.txt''], False), ([''sub''], False)]\<rparr>,
          [CallSync [] [], ClientSftp, SftpReaddir [], SftpStat [''old.txt''], SftpStat [''sub''],
           Decide [''a.txt''] \<lparr>local = LFile, remote = RAbsent\<rparr> \<lparr>taskMethod = Upload, removeRemoteFirst = False\<rparr>,
           Decide [''sub''] \<lparr>local = LDir, remote = RFile\<rparr> \<lparr>taskMethod = Sync, removeRemoteFirst = True\<rparr>,
           CallSync [''sub''] [''sub''], SftpReaddir [''sub''],
           Decide [''sub'', ''x.txt''] \<lparr>local = LFile, remote = RAbsent\<rparr> \<lparr>taskMethod = Upload, removeRemoteFirst = False\<rparr>,
           Decide [''logs''] \<lparr>local = LIgnored, remote = RAbsent\<rparr> \<lparr>taskMethod = Noop, removeRemoteFirst = False\<rparr>,
           Decide [''old.txt''] \<lparr>local = LAbsent, remote = RFile\<rparr> \<lparr>taskMethod = Noop, removeRemoteFirst = True\<rparr>])
   \<and> (\<exists>r d' t. sync (spec_options True [''logs/'']) mem_server 0 []
        (Some (LocalDir [(''a.txt'', LocalFile), (''sub'', LocalDir [(''x.txt'', LocalFile)]), (''logs'', LocalDir [])]))
        [] \<lparr>sftp = None, server = [([''old.txt''], False), ([''sub''], False)]\<rparr> = Some (r, d', t)
        \<and> server d' = [([''old.txt''], False), ([''sub''], False)] \<and> list_all (\<lambda>e. \<not> mutation e) t)"
proof -
  have h: "dryRun (spec_options True [''logs/''])" by (simp add: spec_options_def)
  have e: "sync (spec_options True [''logs/'']) mem_server 0 []
        (Some (LocalDir [(''a.txt'', LocalFile), (''sub'', LocalDir [(''x.txt'', LocalFile)]), (''logs'', LocalDir [])]))
        [] \<lparr>sftp = None, server = [([''old.txt''], False), ([''sub''], False)]\<rparr>
      = Some (Resolved (), \<lparr>sftp = Some 1, server = [([''old.txt''], False), ([''sub''], False)]\<rparr>,
          [CallSync [] [], ClientSftp, SftpReaddir [], SftpStat [''old.txt''], SftpStat [''sub''],
           Decide [''a.txt''] \<lparr>local = LFile, remote = RAbsent\<rparr> \<lparr>taskMethod = Upload, removeRemoteFirst = False\<rparr>,
           Decide [''sub''] \<lparr>local = LDir, remote = RFile\<rparr> \<lparr>taskMethod = Sync, removeRemoteFirst = True\<rparr>,
           CallSync [''sub''] [''sub''], SftpReaddir [''sub''],
           Decide [''sub'', ''x.txt''] \<lparr>local = LFile, remote = RAbsent\<rparr> \<lparr>taskMethod = Upload, removeRemoteFirst = False\<rparr>,
           Decide [''logs''] \<lparr>local = LIgnored, remote = RAbsent\<rparr> \<lparr>taskMethod = Noop, removeRemoteFirst = False\<rparr>,
           Decide [''old.txt''] \<lparr>local = LAbsent, remote = RFile\<rparr> \<lparr>taskMethod = Noop, removeRemoteFirst = True\<rparr>])"
    by code_simp
  from preview_mutates_nothing [OF h, of mem_server 0 "[]"
      "Some (LocalDir [(''a.txt'', LocalFile), (''sub'', LocalDir [(''x.txt'', LocalFile)]), (''logs'', LocalDir [])])"
      "[]" "\<lparr>sftp = None, server = [([''old.txt''], False), ([''sub''], False)]\<rparr>"]
  obtain r d' t where "sync (spec_options True [''logs/'']) mem_server 0 []
        (Some (LocalDir [(''a.txt'', LocalFile), (''sub'', LocalDir [(''x.txt'', LocalFile)]), (''logs'', LocalDir [])]))
        [] \<lparr>sftp = None, server = [([''old.txt''], False), ([''sub''], False)]\<rparr> = Some (r, d', t)"
    "server d' = [([''old.txt''], False), ([''sub''], False)]" "\<forall>e\<in>set t. \<not> mutation e"
    by auto
  then show ?thesis using h e by (auto simp: list_all_iff)
qed


section \<open>Upload of a directory\<close>

lemma excludedBelow_Cons:
  "excludedBelow opts lp (x # s) isDir \<longleftrightarrow>
     isIgnored opts (lp @ [x]) (if s = [] then isDir else True) \<or> excludedBelow opts (lp @ [x]) s isDir"
  by (cases s) auto

lemma uploadEvent_child:
  assumes "\<not> isIgnored opts (lp @ [x]) dir" and "uploadEvent opts (lp @ [x]) (rp @ [x]) dir e"
  shows "childEvent opts lp rp e"
proof -
  have top: "\<not> excludedBelow opts lp [x] dir" using assms(1) by simp
  from assms(2) consider "e = ClientSftp" | "e = CallUpload (lp @ [x]) (rp @ [x])"
    | "\<not> dir" "e = SftpFastPut (lp @ [x]) (rp @ [x])"
    | "dir" "e = SftpMkdir (rp @ [x])"
    | s isDir where "dir" "s \<noteq> []" "\<not> excludedBelow opts (lp @ [x]) s isDir"
        "e = CallUpload (lp @ [x] @ s) (rp @ [x] @ s)
         \<or> (\<not> isDir \<and> e = SftpFastPut (lp @ [x] @ s) (rp @ [x] @ s))
         \<or> (isDir \<and> e = SftpMkdir (rp @ [x] @ s))"
    by (auto simp: uploadEvent_def)
  then show ?thesis
  proof cases
    case 1
    then show ?thesis by (simp add: childEvent_def)
  next
    case 2
    with top show ?thesis unfolding childEvent_def
      by (intro disjI2 exI [of _ "[x]"] exI [of _ dir]) simp
  next
    case 3
    with top show ?thesis unfolding childEvent_def
      by (intro disjI2 exI [of _ "[x]"] exI [of _ False]) simp
  next
    case 4
    with top show ?thesis unfolding childEvent_def
      by (intro disjI2 exI [of _ "[x]"] exI [of _ True]) simp
  next
    case 5
    have "\<not> excludedBelow opts lp (x # s) isDir"
      using 5(1,2,3) assms(1) by (simp add: excludedBelow_Cons)
    with 5(4) show ?thesis unfolding childEvent_def
      by (intro disjI2 exI [of _ "x # s"] exI [of _ isDir]) simp
  qed
qed

lemma getSftp_trace: "getSftp srv d = (r, d', t) \<Longrightarrow> e \<in> set t \<Longrightarrow> e = ClientSftp"
  by (auto simp: getSftp_def split: option.splits sum.splits)

lemma upload_events:
  "upload opts srv lp nodeopt rp d = (r, d', t) \<Longrightarrow> nodeopt = Some node \<Longrightarrow>
     \<forall>e\<in>set t. uploadEvent opts lp rp (isDirectory node) e"
  "uploadChildren opts srv lp localList rp d = (r, d', t) \<Longrightarrow> \<forall>e\<in>set t. childEvent opts lp rp e"
proof (induction opts srv lp nodeopt rp d and opts srv lp localList rp d arbitrary: r d' t node and r d' t
    rule: upload_uploadChildren.induct)
  case (1 opts srv localPath remotePath d)
  then show ?case by simp
next
  case (2 opts srv localPath remotePath d)
  obtain r0 d0 t0 where g: "getSftp srv d = (r0, d0, t0)" by (cases "getSftp srv d")
  from "2.prems" g have "set t \<subseteq> {CallUpload localPath remotePath, SftpFastPut localPath remotePath} \<union> set t0"
    "node = LocalFile"
    by (auto split: outcome.splits prod.splits option.splits)
  then show ?case using getSftp_trace [OF g] by (auto simp: uploadEvent_def)
next
  case (3 opts srv localPath localList remotePath d)
  obtain r0 d0 t0 where g: "getSftp srv d = (r0, d0, t0)" by (cases "getSftp srv d")
  have n: "isDirectory node" using "3.prems"(2) by auto
  show ?case
  proof (cases "\<exists>h s2. r0 = Resolved h \<and> mkdir srv remotePath (server d0) = (None, s2)")
    case True
    then obtain h s2 where R: "r0 = Resolved h" "mkdir srv remotePath (server d0) = (None, s2)" by blast
    obtain r3 d3 t3 where ch: "uploadChildren opts srv localPath localList remotePath (d0\<lparr>server := s2\<rparr>) = (r3, d3, t3)"
      by (cases "uploadChildren opts srv localPath localList remotePath (d0\<lparr>server := s2\<rparr>)")
    from "3.IH" [OF g [symmetric, unfolded R] refl refl R(2) [symmetric] refl ch]
    have c: "\<forall>e\<in>set t3. childEvent opts localPath remotePath e" .
    from "3.prems"(1) g R ch have "t = CallUpload localPath remotePath # t0 @ [SftpMkdir remotePath] @ t3"
      by simp
    then show ?thesis using c n getSftp_trace [OF g] by (auto simp: uploadEvent_def childEvent_def)
  next
    case False
    with "3.prems"(1) g have "set t \<subseteq> {CallUpload localPath remotePath, SftpMkdir remotePath} \<union> set t0"
      by (auto split: outcome.splits prod.splits option.splits)
    then show ?thesis using n getSftp_trace [OF g] by (auto simp: uploadEvent_def)
  qed
next
  case (4 opts srv localPath remotePath d)
  then show ?case by simp
next
  case (5 opts srv localPath filename node rest remotePath d)
  show ?case
  proof (cases "isIgnored opts (localPath @ [filename]) (isDirectory node)")
    case True
    with "5.prems" have "uploadChildren opts srv localPath rest remotePath d = (r, d', t)" by simp
    from "5.IH"(1) [OF True this] show ?thesis .
  next
    case False
    obtain r1 d1 t1 where a: "upload opts srv (localPath @ [filename]) (Some node) (remotePath @ [filename]) d = (r1, d1, t1)"
      by (cases "upload opts srv (localPath @ [filename]) (Some node) (remotePath @ [filename]) d")
    obtain r2 d2 t2 where b: "uploadChildren opts srv localPath rest remotePath d1 = (r2, d2, t2)"
      by (cases "uploadChildren opts srv localPath rest remotePath d1")
    from "5.IH"(2) [OF False a refl]
    have "\<forall>e\<in>set t1. uploadEvent opts (localPath @ [filename]) (remotePath @ [filename]) (isDirectory node) e" .
    then have 1: "\<forall>e\<in>set t1. childEvent opts localPath remotePath e"
      using uploadEvent_child [OF False] by blast
    from "5.IH"(3) [OF False a [symmetric] refl b]
    have 2: "\<forall>e\<in>set t2. childEvent opts localPath remotePath e" .
    from "5.prems" False a b have "t = t1 @ t2" by simp
    then show ?thesis using 1 2 by auto
  qed
qed

text \<open>
  C10. When \<open>upload\<close> is called on a directory, every file put and every directory made
  below it lies at the same place below the remote path, and neither it nor a directory
  on the way down to it is ignored by the matcher: an excluded child is skipped with
  everything below it.
\<close>

theorem upload_skips_excluded:
  assumes "upload opts srv lp (Some (LocalDir localList)) rp d = (r, d', t)"
  shows "(\<forall>l q. SftpFastPut l q \<in> set t \<longrightarrow>
            (\<exists>s. s \<noteq> [] \<and> l = lp @ s \<and> q = rp @ s \<and> \<not> excludedBelow opts lp s False))
       \<and> (\<forall>q. SftpMkdir q \<in> set t \<and> q \<noteq> rp \<longrightarrow>
            (\<exists>s. s \<noteq> [] \<and> q = rp @ s \<and> \<not> excludedBelow opts lp s True))"
proof -
  from upload_events(1) [OF assms refl]
  have "\<forall>e\<in>set t. uploadEvent opts lp rp True e" by simp
  then show ?thesis by (fastforce simp: uploadEvent_def)
qed

theorem upload_skips_excluded_witness:
  "upload (spec_options False [''sub/'', ''a.txt'']) mem_server []
      (Some (LocalDir [(''a.txt'', LocalFile), (''b.txt'', LocalFile),
                       (''sub'', LocalDir [(''x.txt'', LocalFile)]),
                       (''lib'', LocalDir [(''a.txt'', LocalFile)])]))
      [''www''] \<lparr>sftp = Some 1, server = []\<rparr>
    = (Resolved (),
       \<lparr>sftp = Some 1, server = [([''www''], True), ([''www'', ''b.txt''], False), ([''www'', ''lib''], True),
                                 ([''www'', ''lib'', ''a.txt''], False)]\<rparr>,
       [CallUpload [] [''www''], SftpMkdir [''www''],
        CallUpload [''b.txt''] [''www'', ''b.txt''], SftpFastPut [''b.txt''] [''www'', ''b.txt''],
        CallUpload [''lib''] [''www'', ''lib''], SftpMkdir [''www'', ''lib''],
        CallUpload [''lib'', ''a.txt''] [''www'', ''lib'', ''a.txt''],
        SftpFastPut [''lib'', ''a.txt''] [''www'', ''lib'', ''a.txt'']])
   \<and> (\<exists>s. s \<noteq> [] \<and> [''lib'', ''a.txt''] = [] @ s \<and> [''www'', ''lib'', ''a.txt''] = [''www''] @ s
          \<and> \<not> excludedBelow (spec_options False [''sub/'', ''a.txt'']) [] s False)"
proof -
  let ?opts = "spec_options False [''sub/'', ''a.txt'']"
  let ?t = "[CallUpload [] [''www''], SftpMkdir [''www''],
        CallUpload [''b.txt''] [''www'', ''b.txt''], SftpFastPut [''b.txt''] [''www'', ''b.txt''],
        CallUpload [''lib''] [''www'', ''lib''], SftpMkdir [''www'', ''lib''],
        CallUpload [''lib'', ''a.txt''] [''www'', ''lib'', ''a.txt''],
        SftpFastPut [''lib'', ''a.txt''] [''www'', ''lib'', ''a.txt'']]"
  have e: "upload ?opts mem_server []
      (Some (LocalDir [(''a.txt'', LocalFile), (''b.txt'', LocalFile),
                       (''sub'', LocalDir [(''x.txt'', LocalFile)]),
                       (''lib'', LocalDir [(''a.txt'', LocalFile)])]))
      [''www''] \<lparr>sftp = Some 1, server = []\<rparr>
    = (Resolved (),
       \<lparr>sftp = Some 1, server = [([''www''], True), ([''www'', ''b.txt''], False), ([''www'', ''lib''], True),
                                 ([''www'', ''lib'', ''a.txt''], False)]\<rparr>, ?t)"
    by code_simp
  have m: "SftpFastPut [''lib'', ''a.txt''] [''www'', ''lib'', ''a.txt''] \<in> set ?t" by simp
  from upload_skips_excluded [OF e] m show ?thesis using e by blast
qed


section \<open>The shapes of a removal, an upload and a level\<close>

lemma getSftp_shape:
  obtains (Session) h t0 where "getSftp srv d = (Resolved h, d\<lparr>sftp := Some h\<rparr>, t0)" "t0 = [] \<or> t0 = [ClientSftp]"
  | (NoSession) err where "getSftp srv d = (Rejected err, d, [ClientSftp])"
  by (cases "sftp d"; cases "client_sftp srv") (auto simp: getSftp_def)

lemma removeRemote_Suc_cases [consumes 1, case_names NoSession StatError Unlink ReaddirError Unsettled Rmdir]:
  assumes "removeRemote (Suc fuel) srv rp d = Some (r, d', t)"
  obtains
    (NoSession) err where "getSftp srv d = (Rejected err, d, [ClientSftp])"
      "r = Pending" "d' = d" "t = [CallRemoveRemote rp, ClientSftp]"
  | (StatError) h t0 err where "getSftp srv d = (Resolved h, d\<lparr>sftp := Some h\<rparr>, t0)" "t0 = [] \<or> t0 = [ClientSftp]"
      "stat srv rp (server d) = Inl err"
      "r = Rejected err" "d' = d\<lparr>sftp := Some h\<rparr>" "t = CallRemoveRemote rp # t0 @ [SftpStat rp]"
  | (Unlink) h t0 eo s2 where "getSftp srv d = (Resolved h, d\<lparr>sftp := Some h\<rparr>, t0)" "t0 = [] \<or> t0 = [ClientSftp]"
      "stat srv rp (server d) = Inr False" "unlink srv rp (server d) = (eo, s2)"
      "r = (case eo of None \<Rightarrow> Resolved () | Some err \<Rightarrow> Rejected err)"
      "d' = d\<lparr>sftp := Some h, server := s2\<rparr>"
      "t = CallRemoveRemote rp # t0 @ [SftpStat rp, SftpUnlink rp]"
  | (ReaddirError) h t0 err where "getSftp srv d = (Resolved h, d\<lparr>sftp := Some h\<rparr>, t0)" "t0 = [] \<or> t0 = [ClientSftp]"
      "stat srv rp (server d) = Inr True" "readdir srv rp (server d) = Inl err"
      "r = Rejected err" "d' = d\<lparr>sftp := Some h\<rparr>"
      "t = CallRemoveRemote rp # t0 @ [SftpStat rp, SftpReaddir rp]"
  | (Unsettled) h t0 list r2 t2 where "getSftp srv d = (Resolved h, d\<lparr>sftp := Some h\<rparr>, t0)" "t0 = [] \<or> t0 = [ClientSftp]"
      "stat srv rp (server d) = Inr True" "readdir srv rp (server d) = Inr list"
      "removeChildren fuel srv rp list (d\<lparr>sftp := Some h\<rparr>) = Some (r2, d', t2)" "\<not> allResolved r2"
      "r = Pending" "t = CallRemoveRemote rp # t0 @ [SftpStat rp, SftpReaddir rp] @ t2"
  | (Rmdir) h t0 list r2 d2 t2 eo s3 where "getSftp srv d = (Resolved h, d\<lparr>sftp := Some h\<rparr>, t0)" "t0 = [] \<or> t0 = [ClientSftp]"
      "stat srv rp (server d) = Inr True" "readdir srv rp (server d) = Inr list"
      "removeChildren fuel srv rp list (d\<lparr>sftp := Some h\<rparr>) = Some (r2, d2, t2)" "allResolved r2"
      "rmdir srv rp (server d2) = (eo, s3)"
      "r = (case eo of None \<Rightarrow> Resolved () | Some err \<Rightarrow> Rejected err)"
      "d' = d2\<lparr>server := s3\<rparr>"
      "t = CallRemoveRemote rp # t0 @ [SftpStat rp, SftpReaddir rp] @ t2 @ [SftpRmdir rp]"
proof (cases rule: getSftp_shape [of srv d])
  case (NoSession err)
  with assms have "r = Pending" "d' = d" "t = [CallRemoveRemote rp, ClientSftp]" by auto
  with NoSession show ?thesis by (rule that(1))
next
  case (Session h t0)
  let ?d0 = "d\<lparr>sftp := Some h\<rparr>"
  have sv: "server ?d0 = server d" by simp
  show ?thesis
  proof (cases "stat srv rp (server d)")
    case (Inl err)
    with assms Session have "r = Rejected err" "d' = ?d0" "t = CallRemoveRemote rp # t0 @ [SftpStat rp]"
      by auto
    with Session Inl show ?thesis by (intro that(2))
  next
    case (Inr isDir)
    show ?thesis
    proof (cases isDir)
      case False
      obtain eo s2 where u: "unlink srv rp (server d) = (eo, s2)" by (cases "unlink srv rp (server d)")
      from assms Session Inr False u have
        "r = (case eo of None \<Rightarrow> Resolved () | Some err \<Rightarrow> Rejected err)"
        "d' = d\<lparr>sftp := Some h, server := s2\<rparr>"
        "t = CallRemoveRemote rp # t0 @ [SftpStat rp, SftpUnlink rp]"
        by (cases eo; simp)+
      with Session Inr False u show ?thesis by (intro that(3)) auto
    next
      case True
      show ?thesis
      proof (cases "readdir srv rp (server d)")
        case (Inl err)
        with assms Session Inr True have "r = Rejected err" "d' = ?d0"
          "t = CallRemoveRemote rp # t0 @ [SftpStat rp, SftpReaddir rp]"
          by auto
        with Session \<open>stat srv rp (server d) = Inr isDir\<close> True Inl show ?thesis by (intro that(4)) auto
      next
        case (Inr list)
        from assms Session \<open>stat srv rp (server d) = Inr isDir\<close> True Inr
        obtain r2 d2 t2 where ch: "removeChildren fuel srv rp list ?d0 = Some (r2, d2, t2)"
          by (cases "removeChildren fuel srv rp list ?d0") auto
        show ?thesis
        proof (cases "allResolved r2")
          case False
          with assms Session \<open>stat srv rp (server d) = Inr isDir\<close> True Inr ch
          have "r = Pending" "d' = d2" "t = CallRemoveRemote rp # t0 @ [SftpStat rp, SftpReaddir rp] @ t2"
            by auto
          with Session \<open>stat srv rp (server d) = Inr isDir\<close> True Inr ch False show ?thesis
            by (intro that(5)) auto
        next
          case ar: True
          obtain eo s3 where u: "rmdir srv rp (server d2) = (eo, s3)" by (cases "rmdir srv rp (server d2)")
          from assms Session \<open>stat srv rp (server d) = Inr isDir\<close> True Inr ch ar u have
            "r = (case eo of None \<Rightarrow> Resolved () | Some err \<Rightarrow> Rejected err)"
            "d' = d2\<lparr>server := s3\<rparr>"
            "t = CallRemoveRemote rp # t0 @ [SftpStat rp, SftpReaddir rp] @ t2 @ [SftpRmdir rp]"
            by (cases eo; simp)+
          with Session \<open>stat srv rp (server d) = Inr isDir\<close> True Inr ch ar u show ?thesis
            by (intro that(6)) auto
        qed
      qed
    qed
  qed
qed

lemma removeChildren_Cons_cases [consumes 1]:
  assumes "removeChildren fuel srv rp (filename # rest) d = Some (r, d', t)"
  obtains r1 d1 t1 r2 t2 where
    "removeRemote fuel srv (rp @ [filename]) d = Some (r1, d1, t1)"
    "removeChildren fuel srv rp rest d1 = Some (r2, d', t2)"
    "r = promiseAll2 r1 r2" "t = t1 @ t2"
  using assms by (auto split: option.splits prod.splits)

lemma removeRemote_induct [case_names Zero Suc Nil Cons]:
  fixes P :: "nat \<Rightarrow> path \<Rightarrow> bool" and Q :: "nat \<Rightarrow> path \<Rightarrow> string list \<Rightarrow> bool"
  assumes "\<And>rp. P 0 rp"
    and "\<And>fuel rp. (\<And>names. Q fuel rp names) \<Longrightarrow> P (Suc fuel) rp"
    and "\<And>fuel rp. Q fuel rp []"
    and "\<And>fuel rp filename rest. P fuel (rp @ [filename]) \<Longrightarrow> Q fuel rp rest \<Longrightarrow> Q fuel rp (filename # rest)"
  shows "P fuel rp" and "Q fuel rp names"
proof -
  have PQ: "(\<forall>rp. P fuel rp) \<and> (\<forall>rp names. Q fuel rp names)"
  proof (induction fuel)
    case 0
    have "Q 0 rp names" for rp names
      by (induction names) (auto intro: assms)
    then show ?case by (auto intro: assms)
  next
    case (Suc fuel)
    then have p: "P (Suc fuel) rp" for rp by (auto intro: assms)
    have "Q (Suc fuel) rp names" for rp names
      by (induction names) (auto intro: assms p)
    with p show ?case by simp
  qed
  then show "P fuel rp" and "Q fuel rp names" by simp_all
qed


lemma upload_cases [consumes 1, case_names Missing NoSession File MkdirError Dir]:
  assumes "upload opts srv lp nodeopt rp d = (r, d', t)"
  obtains
    (Missing) "nodeopt = None" "r = Threw ENOENT" "d' = d" "t = [CallUpload lp rp]"
  | (NoSession) node err where "nodeopt = Some node" "getSftp srv d = (Rejected err, d, [ClientSftp])"
      "r = Pending" "d' = d" "t = [CallUpload lp rp, ClientSftp]"
  | (File) h t0 eo s2 where "nodeopt = Some LocalFile"
      "getSftp srv d = (Resolved h, d\<lparr>sftp := Some h\<rparr>, t0)" "t0 = [] \<or> t0 = [ClientSftp]"
      "fastPut srv lp rp (server d) = (eo, s2)"
      "r = (case eo of None \<Rightarrow> Resolved () | Some err \<Rightarrow> Rejected err)"
      "d' = d\<lparr>sftp := Some h, server := s2\<rparr>"
      "t = CallUpload lp rp # t0 @ [SftpFastPut lp rp]"
  | (MkdirError) h t0 localList err s2 where "nodeopt = Some (LocalDir localList)"
      "getSftp srv d = (Resolved h, d\<lparr>sftp := Some h\<rparr>, t0)" "t0 = [] \<or> t0 = [ClientSftp]"
      "mkdir srv rp (server d) = (Some err, s2)"
      "r = Rejected err" "d' = d\<lparr>sftp := Some h, server := s2\<rparr>"
      "t = CallUpload lp rp # t0 @ [SftpMkdir rp]"
  | (Dir) h t0 localList s2 r3 t3 where "nodeopt = Some (LocalDir localList)"
      "getSftp srv d = (Resolved h, d\<lparr>sftp := Some h\<rparr>, t0)" "t0 = [] \<or> t0 = [ClientSftp]"
      "mkdir srv rp (server d) = (None, s2)"
      "uploadChildren opts srv lp localList rp (d\<lparr>sftp := Some h, server := s2\<rparr>) = (r3, d', t3)"
      "r = (if allResolved r3 then Resolved () else Pending)"
      "t = CallUpload lp rp # t0 @ [SftpMkdir rp] @ t3"
proof (cases nodeopt)
  case None
  with assms have "r = Threw ENOENT" "d' = d" "t = [CallUpload lp rp]" by auto
  with None show ?thesis by (rule that(1))
next
  case (Some node)
  show ?thesis
  proof (cases rule: getSftp_shape [of srv d])
    case (NoSession err)
    with assms Some have "r = Pending" "d' = d" "t = [CallUpload lp rp, ClientSftp]"
      by (cases node; simp)+
    with Some NoSession show ?thesis by (rule that(2))
  next
    case (Session h t0)
    show ?thesis
    proof (cases node)
      case LocalFile
      obtain eo s2 where u: "fastPut srv lp rp (server d) = (eo, s2)" by (cases "fastPut srv lp rp (server d)")
      from assms Some LocalFile Session u have
        "r = (case eo of None \<Rightarrow> Resolved () | Some err \<Rightarrow> Rejected err)"
        "d' = d\<lparr>sftp := Some h, server := s2\<rparr>"
        "t = CallUpload lp rp # t0 @ [SftpFastPut lp rp]"
        by (cases eo; simp)+
      with Some LocalFile Session u show ?thesis by (intro that(3)) auto
    next
      case (LocalDir localList)
      obtain eo s2 where u: "mkdir srv rp (server d) = (eo, s2)" by (cases "mkdir srv rp (server d)")
      show ?thesis
      proof (cases eo)
        case (Some err)
        with assms \<open>nodeopt = Some node\<close> LocalDir Session u have
          "r = Rejected err" "d' = d\<lparr>sftp := Some h, server := s2\<rparr>"
          "t = CallUpload lp rp # t0 @ [SftpMkdir rp]"
          by auto
        with \<open>nodeopt = Some node\<close> LocalDir Session u Some show ?thesis by (intro that(4)) auto
      next
        case None
        obtain r3 d3 t3 where
          ch: "uploadChildren opts srv lp localList rp (d\<lparr>sftp := Some h, server := s2\<rparr>) = (r3, d3, t3)"
          by (cases "uploadChildren opts srv lp localList rp (d\<lparr>sftp := Some h, server := s2\<rparr>)")
        from assms \<open>nodeopt = Some node\<close> LocalDir Session u None ch have
          "r = (if allResolved r3 then Resolved () else Pending)" "d' = d3"
          "t = CallUpload lp rp # t0 @ [SftpMkdir rp] @ t3"
          by auto
        with \<open>nodeopt = Some node\<close> LocalDir Session u None ch show ?thesis by (intro that(5)) auto
      qed
    qed
  qed
qed

lemma uploadChildren_Cons_cases [consumes 1, case_names Ignored Child]:
  assumes "uploadChildren opts srv lp ((filename, node) # rest) rp d = (r, d', t)"
  obtains
    (Ignored) "isIgnored opts (lp @ [filename]) (isDirectory node)"
      "uploadChildren opts srv lp rest rp d = (r, d', t)"
  | (Child) r1 d1 t1 r2 t2 where "\<not> isIgnored opts (lp @ [filename]) (isDirectory node)"
      "upload opts srv (lp @ [filename]) (Some node) (rp @ [filename]) d = (r1, d1, t1)"
      "uploadChildren opts srv lp rest rp d1 = (r2, d', t2)"
      "r = promiseAll2 r1 r2" "t = t1 @ t2"
  using assms by (auto split: if_splits prod.splits)

lemma upload_induct [case_names Missing File Dir Nil Cons]:
  fixes P :: "path \<Rightarrow> lnode option \<Rightarrow> path \<Rightarrow> bool" and Q :: "path \<Rightarrow> (string \<times> lnode) list \<Rightarrow> path \<Rightarrow> bool"
  assumes M: "\<And>lp rp. P lp None rp"
    and F: "\<And>lp rp. P lp (Some LocalFile) rp"
    and D: "\<And>lp rp localList. Q lp localList rp \<Longrightarrow> P lp (Some (LocalDir localList)) rp"
    and N: "\<And>lp rp. Q lp [] rp"
    and C: "\<And>lp rp filename node rest.
        P (lp @ [filename]) (Some node) (rp @ [filename]) \<Longrightarrow> Q lp rest rp \<Longrightarrow> Q lp ((filename, node) # rest) rp"
  shows "P lp nodeopt rp" and "Q lp localList rp"
proof -
  have A: "\<forall>lp rp. P lp (Some n) rp" for n
  proof (induction n)
    case LocalFile
    show ?case by (auto intro: F)
  next
    case (LocalDir cs)
    have ch: "\<forall>lp rp. P lp (Some n) rp" if "(f, n) \<in> set cs" for f n
      using LocalDir.IH [OF that] by simp
    have "Q lp cs' rp" if "set cs' \<subseteq> set cs" for lp rp cs'
      using that
    proof (induction cs')
      case Nil
      show ?case by (rule N)
    next
      case (Cons e cs')
      obtain filename node where e: "e = (filename, node)" by (cases e)
      with Cons.prems have "(filename, node) \<in> set cs" by simp
      then have "P (lp @ [filename]) (Some node) (rp @ [filename])" using ch by blast
      moreover have "Q lp cs' rp" using Cons.IH Cons.prems by simp
      ultimately show ?case unfolding e by (rule C)
    qed
    then have "Q lp cs rp" for lp rp by simp
    then show ?case by (auto intro: D)
  qed
  show "P lp nodeopt rp" by (cases nodeopt) (auto intro: M simp: A)
  show "Q lp localList rp" by (induction localList) (auto intro: N C simp: A)
qed

lemma buildProject_Resolved_dir:
  "buildProject opts srv lp node rp d = (Resolved project, d', t) \<Longrightarrow> \<exists>localList. node = Some (LocalDir localList)"
  by (auto simp: buildProject_def split: option.splits lnode.splits)

lemma sync_cases [consumes 1, case_names NoLevel Level]:
  assumes "sync opts srv fuel lp node rp d = Some (r, d', t)"
  obtains
    (NoLevel) r1 t1 where "buildProject opts srv lp node rp d = (r1, d', t1)" "\<nexists>project. r1 = Resolved project"
      "\<nexists>u. r = Resolved u" "t = CallSync lp rp # t1"
  | (Level) localList project d1 t1 r2 t2 where "node = Some (LocalDir localList)"
      "buildProject opts srv lp node rp d = (Resolved project, d1, t1)"
      "syncEntries opts srv fuel lp localList rp project d1 = Some (r2, d', t2)"
      "r = inThen r2" "t = CallSync lp rp # t1 @ t2"
proof -
  obtain r1 d1 t1 where bp: "buildProject opts srv lp node rp d = (r1, d1, t1)"
    by (cases "buildProject opts srv lp node rp d")
  show ?thesis
  proof (cases r1)
    case (Resolved project)
    from buildProject_Resolved_dir [OF bp [unfolded Resolved]] obtain localList where
      n: "node = Some (LocalDir localList)" by blast
    from assms bp Resolved n obtain r2 d2 t2 where
      se: "syncEntries opts srv fuel lp localList rp project d1 = Some (r2, d2, t2)"
      by (cases "syncEntries opts srv fuel lp localList rp project d1") (auto simp: sync.simps)
    from assms bp Resolved n se have "r = inThen r2" "d' = d2" "t = CallSync lp rp # t1 @ t2"
      by (auto simp: sync.simps)
    with n bp Resolved se show ?thesis by (intro that(2)) auto
  next
    case (Rejected e)
    with assms bp have "d' = d1" "\<nexists>u. r = Resolved u" "t = CallSync lp rp # t1"
      by (auto simp: sync.simps)
    with bp Rejected show ?thesis by (intro that(1)) auto
  next
    case Pending
    with assms bp have "d' = d1" "\<nexists>u. r = Resolved u" "t = CallSync lp rp # t1"
      by (auto simp: sync.simps)
    with bp Pending show ?thesis by (intro that(1)) auto
  next
    case (Threw e)
    with assms bp have "d' = d1" "\<nexists>u. r = Resolved u" "t = CallSync lp rp # t1"
      by (auto simp: sync.simps)
    with bp Threw show ?thesis by (intro that(1)) auto
  qed
qed

lemma syncEntries_Cons_cases [consumes 1, case_names Threw Next]:
  assumes "syncEntries opts srv fuel lp localList rp ((filename, st) # rest) d = Some (r, d', t)"
  obtains
    (Threw) e t1 where "entryOp opts srv fuel lp localList rp filename st d = Some (Threw e, d', t1)"
      "r = Threw e" "t = Decide (lp @ [filename]) st (getTask opts st) # t1"
  | (Next) r1 d1 t1 r2 t2 where "entryOp opts srv fuel lp localList rp filename st d = Some (r1, d1, t1)"
      "\<nexists>e. r1 = Threw e"
      "syncEntries opts srv fuel lp localList rp rest d1 = Some (r2, d', t2)"
      "r = promiseAll2 r1 r2" "t = Decide (lp @ [filename]) st (getTask opts st) # t1 @ t2"
proof -
  from assms obtain r1 d1 t1 where op: "entryOp opts srv fuel lp localList rp filename st d = Some (r1, d1, t1)"
    by (cases "entryOp opts srv fuel lp localList rp filename st d") (auto simp: syncEntries_Cons)
  show ?thesis
  proof (cases "\<exists>e. r1 = Threw e")
    case True
    then obtain e where e: "r1 = Threw e" by blast
    with assms op have "r = Threw e" "d' = d1" "t = Decide (lp @ [filename]) st (getTask opts st) # t1"
      by (auto simp: syncEntries_Cons)
    with op e show ?thesis by (intro that(1)) auto
  next
    case False
    with assms op obtain r2 d2 t2 where
      se: "syncEntries opts srv fuel lp localList rp rest d1 = Some (r2, d2, t2)"
      by (cases "syncEntries opts srv fuel lp localList rp rest d1"; cases r1) (auto simp: syncEntries_Cons)
    from assms op se False have "r = promiseAll2 r1 r2" "d' = d2"
      "t = Decide (lp @ [filename]) st (getTask opts st) # t1 @ t2"
      by (cases r1; auto simp: syncEntries_Cons)+
    with op False se show ?thesis by (intro that(2)) auto
  qed
qed

lemma entryOp_cases [consumes 2, case_names NoRemoval Unsettled Upload Sync Noop]:
  assumes "entryOp opts srv fuel lp localList rp filename st d = Some (r, d', t)" and "\<not> dryRun opts"
  obtains
    (Unsettled) "removeRemoteFirst (getTask opts st)"
      "removeRemote fuel srv (rp @ [filename]) d = Some (r, d', t)" "\<nexists>u. r = Resolved u"
  | (Upload) d0 t0 r1 t1 where
      "if removeRemoteFirst (getTask opts st)
       then removeRemote fuel srv (rp @ [filename]) d = Some (Resolved (), d0, t0)
       else d0 = d \<and> t0 = []"
      "taskMethod (getTask opts st) = Upload"
      "upload opts srv (lp @ [filename]) (map_of localList filename) (rp @ [filename]) d0 = (r1, d', t1)"
      "r = inThen r1" "t = t0 @ t1"
  | (Sync) d0 t0 r1 t1 where
      "if removeRemoteFirst (getTask opts st)
       then removeRemote fuel srv (rp @ [filename]) d = Some (Resolved (), d0, t0)
       else d0 = d \<and> t0 = []"
      "taskMethod (getTask opts st) = Sync"
      "sync opts srv fuel (lp @ [filename]) (map_of localList filename) (rp @ [filename]) d0 = Some (r1, d', t1)"
      "r = inThen r1" "t = t0 @ t1"
  | (Noop) t0 where
      "if removeRemoteFirst (getTask opts st)
       then removeRemote fuel srv (rp @ [filename]) d = Some (Resolved (), d', t0)
       else d' = d \<and> t0 = []"
      "taskMethod (getTask opts st) = Noop"
      "r = Resolved ()" "t = t0 @ [CallNoop]"
proof -
  from assms obtain r0 d0 t0 where pm: "preMethod fuel srv (getTask opts st) (rp @ [filename]) d = Some (r0, d0, t0)"
    by (cases "preMethod fuel srv (getTask opts st) (rp @ [filename]) d") (auto simp: entryOp_def)
  show ?thesis
  proof (cases r0)
    case (Resolved u)
    have pre: "if removeRemoteFirst (getTask opts st)
       then removeRemote fuel srv (rp @ [filename]) d = Some (Resolved (), d0, t0)
       else d0 = d \<and> t0 = []"
      using pm Resolved by (auto simp: preMethod_def)
    show ?thesis
    proof (cases "taskMethod (getTask opts st)")
      case Upload
      obtain r1 d1 t1 where
        u: "upload opts srv (lp @ [filename]) (map_of localList filename) (rp @ [filename]) d0 = (r1, d1, t1)"
        by (cases "upload opts srv (lp @ [filename]) (map_of localList filename) (rp @ [filename]) d0")
      from assms pm Resolved Upload u have "r = inThen r1" "d' = d1" "t = t0 @ t1"
        by (auto simp: entryOp_def)
      with pre Upload u show ?thesis by (intro that(2)) auto
    next
      case Sync
      from assms pm Resolved Sync obtain r1 d1 t1 where
        u: "sync opts srv fuel (lp @ [filename]) (map_of localList filename) (rp @ [filename]) d0 = Some (r1, d1, t1)"
        by (cases "sync opts srv fuel (lp @ [filename]) (map_of localList filename) (rp @ [filename]) d0")
          (auto simp: entryOp_def)
      from assms pm Resolved Sync u have "r = inThen r1" "d' = d1" "t = t0 @ t1"
        by (auto simp: entryOp_def)
      with pre Sync u show ?thesis by (intro that(3)) auto
    next
      case Noop
      from assms pm Resolved Noop have "r = Resolved ()" "d' = d0" "t = t0 @ [CallNoop]"
        by (auto simp: entryOp_def noop_def)
      with pre Noop show ?thesis by (intro that(4)) auto
    qed
  next
    case (Rejected e)
    with assms pm have "r = r0" "d' = d0" "t = t0" by (auto simp: entryOp_def)
    moreover from pm Rejected have "removeRemoteFirst (getTask opts st)"
      by (auto simp: preMethod_def split: if_splits)
    ultimately show ?thesis using pm Rejected by (intro that(1)) (auto simp: preMethod_def)
  next
    case Pending
    with assms pm have "r = r0" "d' = d0" "t = t0" by (auto simp: entryOp_def)
    moreover from pm Pending have "removeRemoteFirst (getTask opts st)"
      by (auto simp: preMethod_def split: if_splits)
    ultimately show ?thesis using pm Pending by (intro that(1)) (auto simp: preMethod_def)
  next
    case (Threw e)
    with assms pm have "r = r0" "d' = d0" "t = t0" by (auto simp: entryOp_def)
    moreover from pm Threw have "removeRemoteFirst (getTask opts st)"
      by (auto simp: preMethod_def split: if_splits)
    ultimately show ?thesis using pm Threw by (intro that(1)) (auto simp: preMethod_def)
  qed
qed

end
